theory Spec2Isabelle
  imports Main "HOL-Library.AList"
begin

section \<open>Python dictionaries\<close>

text \<open>
  A Python \<^verbatim>\<open>dict\<close> keeps its keys in insertion order and holds every key once. It is
  modelled as an association list; \<open>wf_dict\<close> says that no key occurs twice. Strings are
  \<^typ>\<open>string\<close>: a \<^typ>\<open>char\<close> stands for a code point below 256.
\<close>

type_synonym ('k, 'v) dict = "('k \<times> 'v) list"

definition wf_dict :: "('k, 'v) dict \<Rightarrow> bool" where
  "wf_dict d = distinct (map fst d)"

text \<open>\<^verbatim>\<open>d.keys()\<close>, as the set the source computes with.\<close>

definition dict_keys :: "('k, 'v) dict \<Rightarrow> 'k set" where
  "dict_keys d = set (map fst d)"

text \<open>\<^verbatim>\<open>d.get(k)\<close>: the value, or \<^verbatim>\<open>None\<close>.\<close>

definition dict_get :: "('k, 'v) dict \<Rightarrow> 'k \<Rightarrow> 'v option" where
  "dict_get d k = map_of d k"

text \<open>\<^verbatim>\<open>d.get(k, default)\<close>.\<close>

definition dict_get_default :: "('k, 'v) dict \<Rightarrow> 'k \<Rightarrow> 'v \<Rightarrow> 'v" where
  "dict_get_default d k dflt = (case map_of d k of None \<Rightarrow> dflt | Some v \<Rightarrow> v)"

text \<open>\<^verbatim>\<open>d[k] = v\<close>: an existing key keeps its place, a new key goes last.\<close>

definition dict_set :: "'k \<Rightarrow> 'v \<Rightarrow> ('k, 'v) dict \<Rightarrow> ('k, 'v) dict" where
  "dict_set k v d = AList.update k v d"

text \<open>\<^verbatim>\<open>d.update(other)\<close>: one assignment for each item of \<^verbatim>\<open>other\<close>, in its order.\<close>

fun dict_update :: "('k, 'v) dict \<Rightarrow> ('k, 'v) dict \<Rightarrow> ('k, 'v) dict" where
  "dict_update d [] = d"
| "dict_update d ((k, v) # kvs) = dict_update (dict_set k v d) kvs"

section \<open>Errors\<close>

text \<open>
  Every exception of the source is a value. \<open>OutsideModel\<close> is not a Python exception: it
  marks an input on which the model of \<^verbatim>\<open>json.loads\<close> says nothing, a text with an
  escape \<^verbatim>\<open>\uXXXX\<close> for a code point above 255, which a \<^typ>\<open>char\<close> cannot hold. (It
  is also what the decoder returns when its fuel runs out, which the fuel of
  \<open>json_loads\<close> never does.)
\<close>

datatype error =
    JSONDecodeError
  | AttributeError string
  | RelationNotFoundError int
  | OutsideModel

section \<open>The \<^verbatim>\<open>json\<close> module\<close>

text \<open>
  \<^verbatim>\<open>json.dumps\<close> with its default arguments, on a dictionary from strings to strings
  (the only argument the source gives it), and \<^verbatim>\<open>json.loads\<close> on any string. A
  number keeps the text of its literal: the source only compares decoded values with
  strings.
\<close>

datatype json =
    JNull
  | JBool bool
  | JNumber string
  | JString string
  | JArray "json list"
  | JObject "(string \<times> json) list"

text \<open>
  The encoder, \<^verbatim>\<open>encode_basestring_ascii\<close>: a backslash, a double quote and the control
  characters of the table \<^verbatim>\<open>ESCAPE_DCT\<close> get their short escapes, the printable ASCII
  characters (space to tilde) stand for themselves, and every other character is written
  \<^verbatim>\<open>\u00xx\<close> with lowercase hexadecimal digits. (CHR 0x22 is the double quote, CHR 0x5C
  the backslash.)
\<close>

definition hex_digit :: "nat \<Rightarrow> char" where
  "hex_digit n = (if n < 10 then char_of (48 + n) else char_of (87 + n))"

definition escape_char :: "char \<Rightarrow> string" where
  "escape_char c =
     (if c = CHR 0x5C then [CHR 0x5C, CHR 0x5C]
      else if c = CHR 0x22 then [CHR 0x5C, CHR 0x22]
      else if c = CHR 0x08 then [CHR 0x5C, CHR ''b'']
      else if c = CHR 0x0C then [CHR 0x5C, CHR ''f'']
      else if c = CHR 0x0A then [CHR 0x5C, CHR ''n'']
      else if c = CHR 0x0D then [CHR 0x5C, CHR ''r'']
      else if c = CHR 0x09 then [CHR 0x5C, CHR ''t'']
      else if (0x20::nat) \<le> of_char c \<and> (of_char c :: nat) \<le> 0x7E then [c]
      else [CHR 0x5C, CHR ''u'', CHR ''0'', CHR ''0'',
            hex_digit (of_char c div 16), hex_digit (of_char c mod 16)])"

definition encode_basestring_ascii :: "string \<Rightarrow> string" where
  "encode_basestring_ascii s = CHR 0x22 # concat (map escape_char s) @ [CHR 0x22]"

text \<open>
  The items of a dictionary: key and value joined by a colon and a space, items by a
  comma and a space, in the order of the dictionary.
\<close>

fun dumps_items :: "(string \<times> string) list \<Rightarrow> string" where
  "dumps_items [] = []"
| "dumps_items [(k, v)] = encode_basestring_ascii k @ '': '' @ encode_basestring_ascii v"
| "dumps_items ((k, v) # kvs) =
     encode_basestring_ascii k @ '': '' @ encode_basestring_ascii v @ '', '' @ dumps_items kvs"

definition json_dumps :: "(string, string) dict \<Rightarrow> string" where
  "json_dumps d = ''{'' @ dumps_items d @ ''}''"

text \<open>
  The decoder skips the whitespace of JSON (space, tab, line feed, carriage return)
  between tokens.
\<close>

definition is_ws :: "char \<Rightarrow> bool" where
  "is_ws c = (c = CHR '' '' \<or> c = CHR 0x09 \<or> c = CHR 0x0A \<or> c = CHR 0x0D)"

definition skip_ws :: "string \<Rightarrow> string" where
  "skip_ws s = dropWhile is_ws s"

text \<open>
  An escape \<^verbatim>\<open>\uXXXX\<close> has four hexadecimal digits of either case; the other escapes are
  the ones of the table \<^verbatim>\<open>BACKSLASH\<close>.
\<close>

definition hex_val :: "char \<Rightarrow> nat option" where
  "hex_val c =
     (let n = (of_char c :: nat) in
      if 48 \<le> n \<and> n \<le> 57 then Some (n - 48)
      else if 97 \<le> n \<and> n \<le> 102 then Some (n - 87)
      else if 65 \<le> n \<and> n \<le> 70 then Some (n - 55)
      else None)"

definition decode_uXXXX :: "char \<Rightarrow> char \<Rightarrow> char \<Rightarrow> char \<Rightarrow> nat option" where
  "decode_uXXXX a b c d =
     (case hex_val a of None \<Rightarrow> None | Some x \<Rightarrow>
      case hex_val b of None \<Rightarrow> None | Some y \<Rightarrow>
      case hex_val c of None \<Rightarrow> None | Some z \<Rightarrow>
      case hex_val d of None \<Rightarrow> None | Some w \<Rightarrow> Some (((x * 16 + y) * 16 + z) * 16 + w))"

definition backslash :: "char \<Rightarrow> char option" where
  "backslash e =
     (if e = CHR 0x22 then Some (CHR 0x22)
      else if e = CHR 0x5C then Some (CHR 0x5C)
      else if e = CHR ''/'' then Some (CHR ''/'')
      else if e = CHR ''b'' then Some (CHR 0x08)
      else if e = CHR ''f'' then Some (CHR 0x0C)
      else if e = CHR ''n'' then Some (CHR 0x0A)
      else if e = CHR ''r'' then Some (CHR 0x0D)
      else if e = CHR ''t'' then Some (CHR 0x09)
      else None)"

text \<open>
  \<^verbatim>\<open>scanstring\<close> in strict mode, from the character after the opening quote: the decoded
  string and the text after the closing quote. The end of the text, an unknown escape and
  a raw control character are errors.
\<close>

definition prepend :: "char \<Rightarrow> error + (string \<times> string) \<Rightarrow> error + (string \<times> string)" where
  "prepend c res = (case res of Inl e \<Rightarrow> Inl e | Inr (s, rest) \<Rightarrow> Inr (c # s, rest))"

fun scanstring :: "string \<Rightarrow> error + (string \<times> string)" where
  "scanstring [] = Inl JSONDecodeError"
| "scanstring (c # cs) =
     (if c = CHR 0x22 then Inr ([], cs)
      else if c = CHR 0x5C then
        (case cs of
           [] \<Rightarrow> Inl JSONDecodeError
         | e # r \<Rightarrow>
             if e = CHR ''u'' then
               (case r of
                  x1 # x2 # x3 # x4 # r' \<Rightarrow>
                    (case decode_uXXXX x1 x2 x3 x4 of
                       None \<Rightarrow> Inl JSONDecodeError
                     | Some uni \<Rightarrow>
                         if uni < 256 then prepend (char_of uni) (scanstring r')
                         else Inl OutsideModel)
                | _ \<Rightarrow> Inl JSONDecodeError)
             else
               (case backslash e of
                  None \<Rightarrow> Inl JSONDecodeError
                | Some ch \<Rightarrow> prepend ch (scanstring r)))
      else if (of_char c :: nat) < 0x20 then Inl JSONDecodeError
      else prepend c (scanstring cs))"

text \<open>
  The number pattern: an optional minus sign, an integer part without a leading zero, an
  optional fraction and an optional exponent, each with a digit at least. The matcher
  returns the matched text and the rest.
\<close>

definition is_digit :: "char \<Rightarrow> bool" where
  "is_digit c = ((48::nat) \<le> of_char c \<and> (of_char c :: nat) \<le> 57)"

definition match_int :: "string \<Rightarrow> (string \<times> string) option" where
  "match_int s =
     (case s of
        [] \<Rightarrow> None
      | c # cs \<Rightarrow>
          if c = CHR ''0'' then Some ([c], cs)
          else if is_digit c then Some (c # takeWhile is_digit cs, dropWhile is_digit cs)
          else None)"

definition match_frac :: "string \<Rightarrow> (string \<times> string) option" where
  "match_frac s =
     (case s of
        c # d # cs \<Rightarrow>
          if c = CHR ''.'' \<and> is_digit d
          then Some (c # takeWhile is_digit (d # cs), dropWhile is_digit (d # cs))
          else None
      | _ \<Rightarrow> None)"

definition match_exp :: "string \<Rightarrow> (string \<times> string) option" where
  "match_exp s =
     (case s of
        [] \<Rightarrow> None
      | e # cs \<Rightarrow>
          if e = CHR ''e'' \<or> e = CHR ''E'' then
            (let (sign, ds) =
               (case cs of
                  [] \<Rightarrow> ([], cs)
                | x # r \<Rightarrow> if x = CHR ''-'' \<or> x = CHR ''+'' then ([x], r) else ([], cs))
             in case ds of
                  [] \<Rightarrow> None
                | d # _ \<Rightarrow>
                    if is_digit d
                    then Some (e # sign @ takeWhile is_digit ds, dropWhile is_digit ds)
                    else None)
          else None)"

definition match_number :: "string \<Rightarrow> (string \<times> string) option" where
  "match_number s =
     (let (neg, s1) =
        (case s of [] \<Rightarrow> ([], s) | c # cs \<Rightarrow> if c = CHR ''-'' then ([c], cs) else ([], s))
      in case match_int s1 of
           None \<Rightarrow> None
         | Some (i, s2) \<Rightarrow>
             (let (f, s3) = (case match_frac s2 of None \<Rightarrow> ([], s2) | Some x \<Rightarrow> x);
                  (e, s4) = (case match_exp s3 of None \<Rightarrow> ([], s3) | Some x \<Rightarrow> x)
              in Some (neg @ i @ f @ e, s4)))"

text \<open>
  One value, an array's elements after its bracket, and an object's members after the
  quote that opens the first key (\<^verbatim>\<open>scan_once\<close>, \<^verbatim>\<open>JSONArray\<close> and \<^verbatim>\<open>JSONObject\<close> of the
  decoder). The branches are tried in the decoder's order: string, object, array, the three
  literals, a number, and the three names of special floats. The first argument is fuel:
  every call of one of the three functions by another uses one unit. An object becomes a
  dictionary by assigning its pairs in order, so that the last value of a repeated key
  stays.
\<close>

definition starts_with :: "string \<Rightarrow> string \<Rightarrow> bool" where
  "starts_with s p = (take (length p) s = p)"

fun scan_once :: "nat \<Rightarrow> string \<Rightarrow> error + (json \<times> string)"
  and parse_array :: "nat \<Rightarrow> string \<Rightarrow> error + (json list \<times> string)"
  and parse_object :: "nat \<Rightarrow> string \<Rightarrow> error + ((string \<times> json) list \<times> string)"
where
  "scan_once 0 s = Inl OutsideModel"
| "scan_once (Suc n) s =
     (case s of
        [] \<Rightarrow> Inl JSONDecodeError
      | c # cs \<Rightarrow>
          if c = CHR 0x22 then
            (case scanstring cs of
               Inl e \<Rightarrow> Inl e
             | Inr (str, r) \<Rightarrow> Inr (JString str, r))
          else if c = CHR ''{'' then
            (case skip_ws cs of
               [] \<Rightarrow> Inl JSONDecodeError
             | q # r \<Rightarrow>
                 if q = CHR ''}'' then Inr (JObject [], r)
                 else if q = CHR 0x22 then
                   (case parse_object n r of
                      Inl e \<Rightarrow> Inl e
                    | Inr (pairs, r') \<Rightarrow> Inr (JObject (dict_update [] pairs), r'))
                 else Inl JSONDecodeError)
          else if c = CHR ''['' then
            (case skip_ws cs of
               [] \<Rightarrow> Inl JSONDecodeError
             | q # r \<Rightarrow>
                 if q = CHR '']'' then Inr (JArray [], r)
                 else
                   (case parse_array n (q # r) of
                      Inl e \<Rightarrow> Inl e
                    | Inr (vs, r') \<Rightarrow> Inr (JArray vs, r')))
          else if starts_with s ''null'' then Inr (JNull, drop 4 s)
          else if starts_with s ''true'' then Inr (JBool True, drop 4 s)
          else if starts_with s ''false'' then Inr (JBool False, drop 5 s)
          else
            (case match_number s of
               Some (lit, r) \<Rightarrow> Inr (JNumber lit, r)
             | None \<Rightarrow>
                 if starts_with s ''NaN'' then Inr (JNumber ''NaN'', drop 3 s)
                 else if starts_with s ''Infinity'' then Inr (JNumber ''Infinity'', drop 8 s)
                 else if starts_with s ''-Infinity'' then Inr (JNumber ''-Infinity'', drop 9 s)
                 else Inl JSONDecodeError))"
| "parse_array 0 s = Inl OutsideModel"
| "parse_array (Suc n) s =
     (case scan_once n s of
        Inl e \<Rightarrow> Inl e
      | Inr (v, r) \<Rightarrow>
          (case skip_ws r of
             [] \<Rightarrow> Inl JSONDecodeError
           | c # r' \<Rightarrow>
               if c = CHR '']'' then Inr ([v], r')
               else if c = CHR '','' then
                 (case parse_array n (skip_ws r') of
                    Inl e \<Rightarrow> Inl e
                  | Inr (vs, r'') \<Rightarrow> Inr (v # vs, r''))
               else Inl JSONDecodeError))"
| "parse_object 0 s = Inl OutsideModel"
| "parse_object (Suc n) s =
     (case scanstring s of
        Inl e \<Rightarrow> Inl e
      | Inr (key, r1) \<Rightarrow>
          (case skip_ws r1 of
             [] \<Rightarrow> Inl JSONDecodeError
           | c # r2 \<Rightarrow>
               if c = CHR '':'' then
                 (case scan_once n (skip_ws r2) of
                    Inl e \<Rightarrow> Inl e
                  | Inr (v, r3) \<Rightarrow>
                      (case skip_ws r3 of
                         [] \<Rightarrow> Inl JSONDecodeError
                       | d # r4 \<Rightarrow>
                           if d = CHR ''}'' then Inr ([(key, v)], r4)
                           else if d = CHR '','' then
                             (case skip_ws r4 of
                                [] \<Rightarrow> Inl JSONDecodeError
                              | q # r5 \<Rightarrow>
                                  if q = CHR 0x22 then
                                    (case parse_object n r5 of
                                       Inl e \<Rightarrow> Inl e
                                     | Inr (pairs, r6) \<Rightarrow> Inr ((key, v) # pairs, r6))
                                  else Inl JSONDecodeError)
                           else Inl JSONDecodeError))
               else Inl JSONDecodeError))"

text \<open>
  \<^verbatim>\<open>json.loads\<close>: whitespace, one value, whitespace, and then the end of the text.
\<close>

definition json_loads :: "string \<Rightarrow> error + json" where
  "json_loads s =
     (case scan_once (2 * length s + 2) (skip_ws s) of
        Inl e \<Rightarrow> Inl e
      | Inr (obj, r) \<Rightarrow> if skip_ws r = [] then Inr obj else Inl JSONDecodeError)"

text \<open>
  Two properties of the decoder at fuel \<open>n\<close>, proved below for every \<open>n\<close>: a successful
  scan leaves less input than it was given, and with the fuel of \<open>json_loads\<close> or more
  one more unit of fuel changes no result.
\<close>

definition consumes :: "nat \<Rightarrow> bool" where
  "consumes n =
     ((\<forall>s v r. scan_once n s = Inr (v, r) \<longrightarrow> length r < length s) \<and>
      (\<forall>s vs r. parse_array n s = Inr (vs, r) \<longrightarrow> length r < length s) \<and>
      (\<forall>s ps r. parse_object n s = Inr (ps, r) \<longrightarrow> length r < length s))"

definition enough :: "nat \<Rightarrow> bool" where
  "enough n =
     ((\<forall>s. 2 * length s + 2 \<le> n \<longrightarrow> scan_once (Suc n) s = scan_once n s) \<and>
      (\<forall>s. 2 * length s + 3 \<le> n \<longrightarrow> parse_array (Suc n) s = parse_array n s) \<and>
      (\<forall>s. 2 * length s + 2 \<le> n \<longrightarrow> parse_object (Suc n) s = parse_object n s))"

text \<open>A dictionary of strings as \<^verbatim>\<open>json.loads\<close> returns it: every value a JSON string.\<close>

definition decoded :: "(string \<times> string) list \<Rightarrow> (string \<times> json) list" where
  "decoded kvs = map (\<lambda>(k, v). (k, JString v)) kvs"

section \<open>Relations and the charm\<close>

text \<open>
  A relation databag maps string keys to string values. A relation of the provider has
  two application databags: the one of the local application
  (\<^verbatim>\<open>relation.data[self.local_app]\<close>), which only the leader may write, and the one of
  the remote application (\<^verbatim>\<open>relation.data[event.app]\<close>,
  \<^verbatim>\<open>relation.data[relation.app]\<close>).
\<close>

type_synonym bag = "(string, string) dict"

record relation =
  rel_id :: int
  rel_app :: string
  local_app_data :: bag
  remote_app_data :: bag

text \<open>
  The state a provider object reaches through \<^verbatim>\<open>self.charm\<close> and
  \<^verbatim>\<open>self.local_unit\<close>: whether the local unit is the leader, and the relations of
  the provider's \<^verbatim>\<open>relation_name\<close>.
\<close>

record charm =
  is_leader :: bool
  relations :: "relation list"

text \<open>
  \<^verbatim>\<open>self.charm.model.get_relation(self.relation_name, relation_id)\<close>: the first
  relation with that id. The framework is not part of the sources; an id that names no
  relation is an error of its own here.
\<close>

definition get_relation :: "charm \<Rightarrow> int \<Rightarrow> relation option" where
  "get_relation c rid = find (\<lambda>r. rel_id r = rid) (relations c)"

text \<open>The mutation of the relation object that \<open>get_relation\<close> returned.\<close>

fun modify_relation :: "int \<Rightarrow> (relation \<Rightarrow> relation) \<Rightarrow> relation list \<Rightarrow> relation list" where
  "modify_relation rid f [] = []"
| "modify_relation rid f (r # rs) =
     (if rel_id r = rid then f r # rs else r # modify_relation rid f rs)"

section \<open>The single writer: \<^verbatim>\<open>_update_relation_data\<close> and the setters\<close>

definition update_relation_data :: "charm \<Rightarrow> int \<Rightarrow> bag \<Rightarrow> error + charm" where
  "update_relation_data c relation_id data =
     (if is_leader c then
        (case get_relation c relation_id of
           None \<Rightarrow> Inl (RelationNotFoundError relation_id)
         | Some r \<Rightarrow>
             Inr (c\<lparr>relations :=
               modify_relation relation_id
                 (\<lambda>r. r\<lparr>local_app_data := dict_update (local_app_data r) data\<rparr>)
                 (relations c)\<rparr>))
      else Inr c)"

definition set_version :: "charm \<Rightarrow> int \<Rightarrow> string \<Rightarrow> error + charm" where
  "set_version c relation_id version =
     update_relation_data c relation_id [(''version'', version)]"

definition set_credentials :: "charm \<Rightarrow> int \<Rightarrow> string \<Rightarrow> string \<Rightarrow> error + charm" where
  "set_credentials c relation_id username password =
     update_relation_data c relation_id [(''username'', username), (''password'', password)]"

definition set_tls :: "charm \<Rightarrow> int \<Rightarrow> string \<Rightarrow> error + charm" where
  "set_tls c relation_id tls = update_relation_data c relation_id [(''tls'', tls)]"

definition set_tls_ca :: "charm \<Rightarrow> int \<Rightarrow> string \<Rightarrow> error + charm" where
  "set_tls_ca c relation_id tls_ca = update_relation_data c relation_id [(''tls_ca'', tls_ca)]"

definition set_endpoints :: "charm \<Rightarrow> int \<Rightarrow> string \<Rightarrow> error + charm" where
  "set_endpoints c relation_id connection_strings =
     update_relation_data c relation_id [(''endpoints'', connection_strings)]"

definition set_read_only_endpoints :: "charm \<Rightarrow> int \<Rightarrow> string \<Rightarrow> error + charm" where
  "set_read_only_endpoints c relation_id connection_strings =
     update_relation_data c relation_id [(''read-only-endpoints'', connection_strings)]"

definition set_replset :: "charm \<Rightarrow> int \<Rightarrow> string \<Rightarrow> error + charm" where
  "set_replset c relation_id replset =
     update_relation_data c relation_id [(''replset'', replset)]"

definition set_uris :: "charm \<Rightarrow> int \<Rightarrow> string \<Rightarrow> error + charm" where
  "set_uris c relation_id uris = update_relation_data c relation_id [(''uris'', uris)]"

text \<open>
  A call of one of the setters of the provider classes, and what it does to the charm.
\<close>

datatype setter =
    SetVersion string
  | SetCredentials string string
  | SetTls string
  | SetTlsCa string
  | SetEndpoints string
  | SetReadOnlyEndpoints string
  | SetReplset string
  | SetUris string

fun call_setter :: "charm \<Rightarrow> int \<Rightarrow> setter \<Rightarrow> error + charm" where
  "call_setter c rid (SetVersion version) = set_version c rid version"
| "call_setter c rid (SetCredentials username password) = set_credentials c rid username password"
| "call_setter c rid (SetTls tls) = set_tls c rid tls"
| "call_setter c rid (SetTlsCa tls_ca) = set_tls_ca c rid tls_ca"
| "call_setter c rid (SetEndpoints s) = set_endpoints c rid s"
| "call_setter c rid (SetReadOnlyEndpoints s) = set_read_only_endpoints c rid s"
| "call_setter c rid (SetReplset replset) = set_replset c rid replset"
| "call_setter c rid (SetUris uris) = set_uris c rid uris"

section \<open>The diff of a relation databag: \<^verbatim>\<open>_diff\<close>\<close>

record Diff =
  added :: "string set"
  changed :: "string set"
  deleted :: "string set"

text \<open>
  \<^verbatim>\<open>_diff(self, event)\<close>, on the relation object \<^verbatim>\<open>event.relation\<close>. The old data is
  decoded from the key \<^verbatim>\<open>"data"\<close> of the local application's databag (default
  \<^verbatim>\<open>"{}"\<close>); a decoded value that is no dictionary has no \<^verbatim>\<open>keys\<close>. The new data is
  the remote application's databag without the key \<^verbatim>\<open>"data"\<close>. The result is the diff
  and the relation with the new data saved.
\<close>

definition diff :: "relation \<Rightarrow> error + (Diff \<times> relation)" where
  "diff rel =
     (case json_loads (dict_get_default (local_app_data rel) ''data'' ''{}'') of
        Inl e \<Rightarrow> Inl e
      | Inr (JObject old_data) \<Rightarrow>
          (let new_data = filter (\<lambda>(key, value). key \<noteq> ''data'') (remote_app_data rel);
               added = dict_keys new_data - dict_keys old_data;
               deleted = dict_keys old_data - dict_keys new_data;
               changed =
                 Set.filter
                   (\<lambda>key. dict_get old_data key \<noteq> map_option JString (dict_get new_data key))
                   (dict_keys old_data \<inter> dict_keys new_data)
           in Inr (\<lparr>added = added, changed = changed, deleted = deleted\<rparr>,
                   rel\<lparr>local_app_data :=
                     dict_update (local_app_data rel) [(''data'', json_dumps new_data)]\<rparr>))
      | Inr _ \<Rightarrow> Inl (AttributeError ''keys''))"

text \<open>The snapshot of a relation: what its local databag holds under \<^verbatim>\<open>"data"\<close>.\<close>

definition snapshot :: "relation \<Rightarrow> string option" where
  "snapshot rel = dict_get (local_app_data rel) ''data''"

text \<open>
  The value of \<^verbatim>\<open>new_data\<close> in \<^verbatim>\<open>_diff\<close>: the comprehension over the remote application's
  databag.
\<close>

definition new_data_of :: "relation \<Rightarrow> bag" where
  "new_data_of rel = filter (\<lambda>(key, value). key \<noteq> ''data'') (remote_app_data rel)"

subsection \<open>The diff in the words of the specification\<close>

text \<open>
  The peer view is the content of the peer's databag without the reserved key, as a map.
  The delta of an old snapshot and a peer view: the keys only the view has, the keys both
  have with different values, the keys only the snapshot has.
\<close>

definition peer_view :: "relation \<Rightarrow> (string \<rightharpoonup> string)" where
  "peer_view rel = (dict_get (remote_app_data rel))(''data'' := None)"

definition spec_delta :: "(string \<rightharpoonup> json) \<Rightarrow> (string \<rightharpoonup> string) \<Rightarrow> Diff" where
  "spec_delta old view =
     \<lparr>added = dom view - dom old,
      changed = {k \<in> dom old \<inter> dom view. old k \<noteq> map_option JString (view k)},
      deleted = dom old - dom view\<rparr>"

section \<open>Events\<close>

text \<open>
  The relation-changed event of the framework: the relation (by its id), the remote
  application and the remote unit, if any.
\<close>

record relation_changed_event =
  event_relation :: int
  event_app :: string
  event_unit :: "string option"

datatype event_kind = DatabaseRequestedEvent | TopicCreatedEvent | ZNodeCreatedEvent

text \<open>
  An emitted custom event: its class and what \<^verbatim>\<open>emit(event.relation, app=event.app,
  unit=event.unit)\<close> gave it. It holds the relation, not a copy of its data.
\<close>

record relation_event =
  kind :: event_kind
  relation :: int
  app :: string
  unit :: "string option"

datatype provider_class = DatabaseProvides | KafkaProvides | ZookeeperProvides

datatype events_class = DatabaseEvents | KafkaEvents | ZookeeperEvents

text \<open>What an attribute lookup in a handler can yield.\<close>

datatype pyobj = Events events_class | BoundEvent event_kind | Plain

text \<open>The class attribute \<^verbatim>\<open>on\<close> of each provider class.\<close>

fun on_of :: "provider_class \<Rightarrow> events_class" where
  "on_of DatabaseProvides = DatabaseEvents"
| "on_of KafkaProvides = KafkaEvents"
| "on_of ZookeeperProvides = ZookeeperEvents"

text \<open>The \<^verbatim>\<open>EventSource\<close> attributes that each events class declares.\<close>

fun event_sources :: "events_class \<Rightarrow> (string \<times> event_kind) list" where
  "event_sources DatabaseEvents = [(''database_requested'', DatabaseRequestedEvent)]"
| "event_sources KafkaEvents = [(''topic_created'', TopicCreatedEvent)]"
| "event_sources ZookeeperEvents = [(''znode_created'', ZNodeCreatedEvent)]"

text \<open>
  The other names a provider object has: what \<^verbatim>\<open>__init__\<close> assigns, what the framework's
  \<^verbatim>\<open>Object\<close> gives, and the methods and properties of the classes. None of them is an
  event source.
\<close>

definition provider_attributes :: "provider_class \<Rightarrow> string list" where
  "provider_attributes cls =
     [''charm'', ''local_app'', ''local_unit'', ''relation_name'', ''events'',
      ''framework'', ''handle'', ''model'',
      ''_on_relation_changed'', ''_diff'', ''fetch_relation_data'', ''_update_relation_data'',
      ''relations'', ''set_version'', ''set_credentials'', ''set_tls'', ''set_tls_ca''] @
     (case cls of
        DatabaseProvides \<Rightarrow>
          [''set_endpoints'', ''set_read_only_endpoints'', ''set_replset'', ''set_uris'']
      | _ \<Rightarrow> [])"

text \<open>\<^verbatim>\<open>self.name\<close> on a provider object.\<close>

definition getattr_self :: "provider_class \<Rightarrow> string \<Rightarrow> error + pyobj" where
  "getattr_self cls name =
     (if name = ''on'' then Inr (Events (on_of cls))
      else if name \<in> set (provider_attributes cls) then Inr Plain
      else Inl (AttributeError name))"

text \<open>\<^verbatim>\<open>obj.name\<close> on what a lookup returned.\<close>

definition getattr :: "pyobj \<Rightarrow> string \<Rightarrow> error + pyobj" where
  "getattr obj name =
     (case obj of
        Events ec \<Rightarrow>
          (case map_of (event_sources ec) name of
             Some k \<Rightarrow> Inr (BoundEvent k)
           | None \<Rightarrow> Inl (AttributeError name))
      | _ \<Rightarrow> Inl (AttributeError name))"

text \<open>\<^verbatim>\<open>obj.emit(event.relation, app=event.app, unit=event.unit)\<close>.\<close>

definition emit :: "pyobj \<Rightarrow> relation_changed_event \<Rightarrow> error + relation_event" where
  "emit obj event =
     (case obj of
        BoundEvent k \<Rightarrow>
          Inr \<lparr>kind = k, relation = event_relation event, app = event_app event,
               unit = event_unit event\<rparr>
      | _ \<Rightarrow> Inl (AttributeError ''emit''))"

section \<open>The handlers: \<^verbatim>\<open>_on_relation_changed\<close>\<close>

text \<open>
  \<^verbatim>\<open>self._diff(event)\<close> as a handler runs it: on the relation of the event, found in the
  charm by its id, and with the relation's new state stored back.
\<close>

definition diff_event :: "charm \<Rightarrow> relation_changed_event \<Rightarrow> error + (Diff \<times> charm)" where
  "diff_event c event =
     (case get_relation c (event_relation event) of
        None \<Rightarrow> Inl (RelationNotFoundError (event_relation event))
      | Some rel \<Rightarrow>
          (case diff rel of
             Inl e \<Rightarrow> Inl e
           | Inr (d, rel') \<Rightarrow>
               Inr (d, c\<lparr>relations :=
                        modify_relation (event_relation event) (\<lambda>r. rel') (relations c)\<rparr>)))"

text \<open>
  Each handler returns the charm's new state and the events it emitted, in order.
\<close>

definition DatabaseProvides_on_relation_changed ::
  "charm \<Rightarrow> relation_changed_event \<Rightarrow> error + (charm \<times> relation_event list)" where
  "DatabaseProvides_on_relation_changed c event =
     (if \<not> is_leader c then Inr (c, [])
      else
        (case diff_event c event of
           Inl e \<Rightarrow> Inl e
         | Inr (d, c') \<Rightarrow>
             if ''database'' \<in> added d then
               (case getattr_self DatabaseProvides ''on'' of
                  Inl e \<Rightarrow> Inl e
                | Inr on \<Rightarrow>
                    (case getattr on ''database_requested'' of
                       Inl e \<Rightarrow> Inl e
                     | Inr source \<Rightarrow>
                         (case emit source event of
                            Inl e \<Rightarrow> Inl e
                          | Inr ev \<Rightarrow> Inr (c', [ev]))))
             else Inr (c', [])))"

definition KafkaProvides_on_relation_changed ::
  "charm \<Rightarrow> relation_changed_event \<Rightarrow> error + (charm \<times> relation_event list)" where
  "KafkaProvides_on_relation_changed c event =
     (if \<not> is_leader c then Inr (c, [])
      else
        (case diff_event c event of
           Inl e \<Rightarrow> Inl e
         | Inr (d, c') \<Rightarrow>
             if ''topic'' \<in> added d then
               (case getattr_self KafkaProvides ''topic_created'' of
                  Inl e \<Rightarrow> Inl e
                | Inr source \<Rightarrow>
                    (case emit source event of
                       Inl e \<Rightarrow> Inl e
                     | Inr ev \<Rightarrow> Inr (c', [ev])))
             else Inr (c', [])))"

definition ZookeeperProvides_on_relation_changed ::
  "charm \<Rightarrow> relation_changed_event \<Rightarrow> error + (charm \<times> relation_event list)" where
  "ZookeeperProvides_on_relation_changed c event =
     (if \<not> is_leader c then Inr (c, [])
      else
        (case diff_event c event of
           Inl e \<Rightarrow> Inl e
         | Inr (d, c') \<Rightarrow>
             if ''chroot'' \<in> added d then
               (case getattr_self ZookeeperProvides ''topic_created'' of
                  Inl e \<Rightarrow> Inl e
                | Inr source \<Rightarrow>
                    (case emit source event of
                       Inl e \<Rightarrow> Inl e
                     | Inr ev \<Rightarrow> Inr (c', [ev])))
             else Inr (c', [])))"

section \<open>The accessors of the custom events\<close>

text \<open>
  \<^verbatim>\<open>self.relation.data[self.relation.app].get(key)\<close>: the relation of the event as the
  charm has it when the accessor is called. An event whose relation is gone has
  \<^verbatim>\<open>None\<close> for it, which has no \<^verbatim>\<open>data\<close>.
\<close>

definition relation_data_get :: "charm \<Rightarrow> relation_event \<Rightarrow> string \<Rightarrow> error + string option" where
  "relation_data_get c ev key =
     (case get_relation c (relation ev) of
        None \<Rightarrow> Inl (AttributeError ''data'')
      | Some rel \<Rightarrow> Inr (dict_get (remote_app_data rel) key))"

text \<open>\<^verbatim>\<open>BaseResourceAccessEvent.extra_user_roles\<close>: every custom event inherits it.\<close>

definition extra_user_roles :: "charm \<Rightarrow> relation_event \<Rightarrow> error + string option" where
  "extra_user_roles c ev = relation_data_get c ev ''extra-user-roles''"

text \<open>\<^verbatim>\<open>DatabaseEvent.database\<close>: a property of \<^verbatim>\<open>DatabaseRequestedEvent\<close> only.\<close>

definition database :: "charm \<Rightarrow> relation_event \<Rightarrow> error + string option" where
  "database c ev =
     (if kind ev = DatabaseRequestedEvent then relation_data_get c ev ''database''
      else Inl (AttributeError ''database''))"

text \<open>\<^verbatim>\<open>KafkaEvent.topic\<close>: a property of \<^verbatim>\<open>TopicCreatedEvent\<close> only.\<close>

definition topic :: "charm \<Rightarrow> relation_event \<Rightarrow> error + string option" where
  "topic c ev =
     (if kind ev = TopicCreatedEvent then relation_data_get c ev ''topic''
      else Inl (AttributeError ''topic''))"

text \<open>\<^verbatim>\<open>ZookeeperEvent.chroot\<close>: a property of \<^verbatim>\<open>ZNodeCreatedEvent\<close> only.\<close>

definition chroot :: "charm \<Rightarrow> relation_event \<Rightarrow> error + string option" where
  "chroot c ev =
     (if kind ev = ZNodeCreatedEvent then relation_data_get c ev ''chroot''
      else Inl (AttributeError ''chroot''))"

section \<open>The remote application\<close>

text \<open>
  The remote application sets a key of its databag in a relation: a step of the
  environment between two notifications.
\<close>

definition remote_write :: "charm \<Rightarrow> int \<Rightarrow> string \<Rightarrow> string \<Rightarrow> charm" where
  "remote_write c rid key val =
     c\<lparr>relations :=
       modify_relation rid
         (\<lambda>r. r\<lparr>remote_app_data := dict_set key val (remote_app_data r)\<rparr>) (relations c)\<rparr>"

section \<open>Example states\<close>

text \<open>
  A relation with id 1 whose remote application has asked for a database, and a charm
  that has this relation only, as leader or not.
\<close>

definition example_relation :: relation where
  "example_relation =
     \<lparr>rel_id = 1, rel_app = ''application'',
      local_app_data = [(''data'', ''{}''), (''endpoints'', ''h1:5432'')],
      remote_app_data = [(''database'', ''app_db'')]\<rparr>"

definition example_charm :: "bool \<Rightarrow> charm" where
  "example_charm leader = \<lparr>is_leader = leader, relations = [example_relation]\<rparr>"

text \<open>
  What the remote application writes when it asks for a database with extra roles, and a
  relation whose last diff saw that request and whose remote databag has since changed:
  a new database name, a new key, the roles gone.
\<close>

definition requested_bag :: bag where
  "requested_bag = [(''database'', ''app_db''), (''extra-user-roles'', ''CREATEDB'')]"

definition edited_relation :: relation where
  "edited_relation =
     \<lparr>rel_id = 1, rel_app = ''application'',
      local_app_data = [(''data'', json_dumps requested_bag)],
      remote_app_data = [(''database'', ''other_db''), (''version'', ''1'')]\<rparr>"

text \<open>
  The relation after the request was seen and the remote application has deleted the
  roles; a relation whose stored snapshot is no JSON text; a relation-changed event of
  relation 1.
\<close>

definition roles_dropped_relation :: relation where
  "roles_dropped_relation =
     \<lparr>rel_id = 1, rel_app = ''application'',
      local_app_data = [(''data'', json_dumps requested_bag)],
      remote_app_data = [(''database'', ''app_db'')]\<rparr>"

definition corrupt_relation :: relation where
  "corrupt_relation =
     \<lparr>rel_id = 1, rel_app = ''application'',
      local_app_data = [(''data'', ''not json'')],
      remote_app_data = [(''database'', ''app_db'')]\<rparr>"

definition example_event :: relation_changed_event where
  "example_event =
     \<lparr>event_relation = 1, event_app = ''application'', event_unit = Some ''application/0''\<rparr>"

text \<open>
  Relations in which the remote application has asked for a topic and for a chroot; the
  custom event of the database request; the example relation after its first diff, and
  the leader's charm with it.
\<close>

definition topic_relation :: relation where
  "topic_relation =
     \<lparr>rel_id = 1, rel_app = ''application'', local_app_data = [],
      remote_app_data = [(''topic'', ''orders'')]\<rparr>"

definition chroot_relation :: relation where
  "chroot_relation =
     \<lparr>rel_id = 1, rel_app = ''application'', local_app_data = [],
      remote_app_data = [(''chroot'', ''/app'')]\<rparr>"

definition requested_event :: relation_event where
  "requested_event =
     \<lparr>kind = DatabaseRequestedEvent, relation = 1, app = ''application'',
      unit = Some ''application/0''\<rparr>"

definition settled_relation :: relation where
  "settled_relation =
     example_relation\<lparr>local_app_data :=
       [(''data'', json_dumps [(''database'', ''app_db'')]), (''endpoints'', ''h1:5432'')]\<rparr>"

definition settled_charm :: charm where
  "settled_charm = \<lparr>is_leader = True, relations = [settled_relation]\<rparr>"

section \<open>Facts about dictionaries and relations\<close>

lemma dict_get_dict_set: "dict_get (dict_set k v d) k' = (if k' = k then Some v else dict_get d k')"
  by (simp add: dict_get_def dict_set_def update_conv')

lemma dict_keys_dict_set: "dict_keys (dict_set k v d) = insert k (dict_keys d)"
  using dom_update [of k v d] by (simp add: dict_keys_def dict_set_def)

lemma wf_dict_dict_set: "wf_dict d \<Longrightarrow> wf_dict (dict_set k v d)"
  by (simp add: wf_dict_def dict_set_def distinct_update)

lemma dict_get_dict_update_other:
  "k \<notin> dict_keys other \<Longrightarrow> dict_get (dict_update d other) k = dict_get d k"
  by (induction d other rule: dict_update.induct)
     (auto simp: dict_keys_def dict_get_dict_set)

lemma dict_get_dict_update_same:
  "wf_dict other \<Longrightarrow> (k, v) \<in> set other \<Longrightarrow> dict_get (dict_update d other) k = Some v"
proof (induction d other rule: dict_update.induct)
  case (1 d)
  then show ?case by simp
next
  case (2 d k' v' kvs)
  show ?case
  proof (cases "(k, v) = (k', v')")
    case True
    with "2.prems" have "k \<notin> dict_keys kvs"
      by (auto simp: wf_dict_def dict_keys_def)
    with True show ?thesis
      by (simp add: dict_get_dict_update_other dict_get_dict_set)
  next
    case False
    with "2.prems" have "wf_dict kvs" "(k, v) \<in> set kvs"
      by (auto simp: wf_dict_def)
    with "2.IH" show ?thesis by simp
  qed
qed

lemma dict_keys_Cons: "dict_keys ((k, v) # kvs) = insert k (dict_keys kvs)"
  by (simp add: dict_keys_def)

lemma dict_keys_dict_update: "dict_keys (dict_update d other) = dict_keys d \<union> dict_keys other"
proof (induction d other rule: dict_update.induct)
  case (1 d)
  show ?case by (simp add: dict_keys_def)
next
  case (2 d k v kvs)
  then show ?case by (simp add: dict_keys_dict_set dict_keys_Cons)
qed

lemma wf_dict_dict_update: "wf_dict d \<Longrightarrow> wf_dict (dict_update d other)"
  by (induction d other rule: dict_update.induct) (auto simp: wf_dict_dict_set)

lemma find_modify_relation_same:
  "find (\<lambda>r. rel_id r = rid) rs = Some r \<Longrightarrow> rel_id (f r) = rid \<Longrightarrow>
     find (\<lambda>r. rel_id r = rid) (modify_relation rid f rs) = Some (f r)"
  by (induction rs) (auto split: if_splits)

lemma find_modify_relation_other:
  "rid' \<noteq> rid \<Longrightarrow> (\<And>r. rel_id (f r) = rel_id r) \<Longrightarrow>
     find (\<lambda>r. rel_id r = rid') (modify_relation rid f rs) = find (\<lambda>r. rel_id r = rid') rs"
  by (induction rs) auto

lemma get_relation_update_same:
  assumes "get_relation c rid = Some r"
  shows "get_relation (c\<lparr>relations := modify_relation rid (\<lambda>r. r\<lparr>local_app_data := f (local_app_data r)\<rparr>) (relations c)\<rparr>) rid
     = Some (r\<lparr>local_app_data := f (local_app_data r)\<rparr>)"
proof -
  from assms have "rel_id r = rid"
    by (auto simp: get_relation_def find_Some_iff)
  with assms show ?thesis
    by (simp add: get_relation_def find_modify_relation_same)
qed

section \<open>The fuel of the decoder\<close>

text \<open>
  The result of \<open>json_loads\<close> does not depend on its fuel (\<open>json_loads_fuel\<close>): no input
  is rejected for its nesting.
\<close>

lemma prepend_Inr: "prepend c res = Inr (x, r) \<Longrightarrow> \<exists>x'. res = Inr (x', r)"
  by (auto simp: prepend_def split: sum.splits)

lemma scanstring_cases:
  assumes "scanstring (c # cs) = Inr (x, r)"
  shows "r = cs \<or> (\<exists>t x'. scanstring t = Inr (x', r) \<and> length t \<le> length cs)"
  using assms
  by (auto split: if_splits list.splits option.splits dest!: prepend_Inr)

lemma scanstring_shorter: "scanstring s = Inr (x, r) \<Longrightarrow> length r < length s"
proof (induction "length s" arbitrary: s x rule: less_induct)
  case less
  show ?case
  proof (cases s)
    case Nil
    with less.prems show ?thesis by simp
  next
    case (Cons c cs)
    with less.prems scanstring_cases [of c cs x r]
    consider "r = cs" | t x' where "scanstring t = Inr (x', r)" "length t \<le> length cs"
      by blast
    then show ?thesis
    proof cases
      case 1
      with Cons show ?thesis by simp
    next
      case 2
      with less.hyps [of t x'] Cons show ?thesis by simp
    qed
  qed
qed

lemma skip_ws_le: "length (skip_ws s) \<le> length s"
  by (simp add: skip_ws_def length_dropWhile_le)

lemma skip_ws_shorter: "skip_ws cs = q # t \<Longrightarrow> length t < length cs"
  using skip_ws_le [of cs] by simp

lemma match_int_shorter: "match_int s = Some (i, r) \<Longrightarrow> length r < length s"
  using length_dropWhile_le [of is_digit "tl s"]
  by (auto simp: match_int_def split: list.splits if_splits)

lemma match_frac_le: "match_frac s = Some (f, r) \<Longrightarrow> length r \<le> length s"
  using length_dropWhile_le [of is_digit "tl s"]
  by (auto simp: match_frac_def split: list.splits if_splits)

lemma match_exp_le: "match_exp s = Some (e, r) \<Longrightarrow> length r \<le> length s"
proof -
  assume a: "match_exp s = Some (e, r)"
  then obtain ds where "r = dropWhile is_digit ds" "length ds \<le> length s"
    by (auto simp: match_exp_def Let_def split: list.splits if_splits)
  then show ?thesis
    using length_dropWhile_le [of is_digit ds] by simp
qed

lemma match_number_shorter:
  assumes "match_number s = Some (lit, r)"
  shows "length r < length s"
proof -
  obtain neg s1 where n: "(case s of [] \<Rightarrow> ([], s) | c # cs \<Rightarrow> if c = CHR ''-'' then ([c], cs) else ([], s)) = (neg, s1)"
    by (cases "(case s of [] \<Rightarrow> ([], s) | c # cs \<Rightarrow> if c = CHR ''-'' then ([c], cs) else ([], s))")
  then have l1: "length s1 \<le> length s"
    by (auto split: list.splits if_splits)
  from assms n obtain i s2 where i: "match_int s1 = Some (i, s2)"
    by (auto simp: match_number_def split: option.splits)
  then have l2: "length s2 < length s1"
    by (rule match_int_shorter)
  obtain f s3 where f: "(case match_frac s2 of None \<Rightarrow> ([], s2) | Some x \<Rightarrow> x) = (f, s3)"
    by (cases "(case match_frac s2 of None \<Rightarrow> ([], s2) | Some x \<Rightarrow> x)")
  then have l3: "length s3 \<le> length s2"
    by (auto split: option.splits dest: match_frac_le)
  obtain e s4 where e: "(case match_exp s3 of None \<Rightarrow> ([], s3) | Some x \<Rightarrow> x) = (e, s4)"
    by (cases "(case match_exp s3 of None \<Rightarrow> ([], s3) | Some x \<Rightarrow> x)")
  then have l4: "length s4 \<le> length s3"
    by (auto split: option.splits dest: match_exp_le)
  from assms n i f e have "r = s4"
    by (simp add: match_number_def)
  with l1 l2 l3 l4 show ?thesis by simp
qed

lemma starts_with_length: "starts_with s p \<Longrightarrow> length p \<le> length s"
  by (metis starts_with_def length_take min.cobounded1 min.commute)

lemma scan_once_shorter_step:
  assumes ih: "consumes n" and a: "scan_once (Suc n) s = Inr (v, r)"
  shows "length r < length s"
proof (cases s)
  case Nil
  with a show ?thesis by simp
next
  case (Cons c cs)
  from ih have ia: "\<And>s vs r. parse_array n s = Inr (vs, r) \<Longrightarrow> length r < length s"
    and io: "\<And>s ps r. parse_object n s = Inr (ps, r) \<Longrightarrow> length r < length s"
    by (auto simp: consumes_def)
  show ?thesis
  proof (cases "c = CHR 0x22")
    case True
    with a Cons obtain x where "scanstring cs = Inr (x, r)"
      by (auto split: sum.splits)
    from scanstring_shorter [OF this] Cons show ?thesis by simp
  next
    case nq: False
    show ?thesis
    proof (cases "c = CHR ''{''")
      case True
      with a Cons nq obtain q t where q: "skip_ws cs = q # t"
        and d: "r = t \<or> (\<exists>ps. parse_object n t = Inr (ps, r))"
        by (auto split: list.splits if_splits sum.splits)
      from skip_ws_shorter [OF q] d io Cons show ?thesis
        by fastforce
    next
      case no: False
      show ?thesis
      proof (cases "c = CHR ''[''")
        case True
        with a Cons nq no obtain q t where q: "skip_ws cs = q # t"
          and d: "r = t \<or> (\<exists>vs. parse_array n (q # t) = Inr (vs, r))"
          by (auto split: list.splits if_splits sum.splits)
        from skip_ws_le [of cs] q d ia [of "q # t"] Cons show ?thesis
          by fastforce
      next
        case na: False
        from a Cons nq no na
        consider "starts_with s ''null''" "r = drop 4 s"
          | "starts_with s ''true''" "r = drop 4 s"
          | "starts_with s ''false''" "r = drop 5 s"
          | lit where "match_number s = Some (lit, r)"
          | "starts_with s ''NaN''" "r = drop 3 s"
          | "starts_with s ''Infinity''" "r = drop 8 s"
          | "starts_with s ''-Infinity''" "r = drop 9 s"
          by (auto split: if_splits option.splits)
        then show ?thesis
        proof cases
          case 4
          then show ?thesis by (rule match_number_shorter)
        qed (use starts_with_length [of s] in fastforce)+
      qed
    qed
  qed
qed

lemma parse_array_shorter_step:
  assumes ih: "consumes n" and a: "parse_array (Suc n) s = Inr (vs, r)"
  shows "length r < length s"
proof -
  from ih have iv: "\<And>s v r. scan_once n s = Inr (v, r) \<Longrightarrow> length r < length s"
    and ia: "\<And>s vs r. parse_array n s = Inr (vs, r) \<Longrightarrow> length r < length s"
    by (auto simp: consumes_def)
  from a obtain v r1 c r' where v: "scan_once n s = Inr (v, r1)" and w: "skip_ws r1 = c # r'"
    and d: "r = r' \<or> (\<exists>vs'. parse_array n (skip_ws r') = Inr (vs', r))"
    by (auto split: sum.splits list.splits if_splits)
  from iv [OF v] skip_ws_shorter [OF w] have "length r' < length s"
    by simp
  with d ia [of "skip_ws r'"] skip_ws_le [of r'] show ?thesis
    by fastforce
qed

lemma parse_object_shorter_step:
  assumes ih: "consumes n" and a: "parse_object (Suc n) s = Inr (ps, r)"
  shows "length r < length s"
proof -
  from ih have iv: "\<And>s v r. scan_once n s = Inr (v, r) \<Longrightarrow> length r < length s"
    and io: "\<And>s ps r. parse_object n s = Inr (ps, r) \<Longrightarrow> length r < length s"
    by (auto simp: consumes_def)
  from a obtain key r1 c r2 v r3 d r4 where k: "scanstring s = Inr (key, r1)"
    and w1: "skip_ws r1 = c # r2" and v: "scan_once n (skip_ws r2) = Inr (v, r3)"
    and w3: "skip_ws r3 = d # r4"
    and e: "r = r4 \<or> (\<exists>q r5 ps'. skip_ws r4 = q # r5 \<and> parse_object n r5 = Inr (ps', r))"
    by (auto split: sum.splits list.splits if_splits)
  from scanstring_shorter [OF k] skip_ws_shorter [OF w1] iv [OF v] skip_ws_le [of r2]
    skip_ws_shorter [OF w3]
  have "length r4 < length s"
    by simp
  with e io skip_ws_shorter show ?thesis
    by fastforce
qed

lemma consumes_all: "consumes n"
proof (induction n)
  case 0
  show ?case by (simp add: consumes_def)
next
  case (Suc n)
  show ?case
    unfolding consumes_def
    using scan_once_shorter_step [OF Suc] parse_array_shorter_step [OF Suc]
      parse_object_shorter_step [OF Suc]
    by blast
qed

lemma scan_once_shorter: "scan_once n s = Inr (v, r) \<Longrightarrow> length r < length s"
  using consumes_all [of n] by (simp add: consumes_def)

lemma parse_array_shorter: "parse_array n s = Inr (vs, r) \<Longrightarrow> length r < length s"
  using consumes_all [of n] by (simp add: consumes_def)

lemma parse_object_shorter: "parse_object n s = Inr (ps, r) \<Longrightarrow> length r < length s"
  using consumes_all [of n] by (simp add: consumes_def)

lemma scan_once_enough_step:
  assumes ih: "enough n" and n: "2 * length s + 2 \<le> Suc n"
  shows "scan_once (Suc (Suc n)) s = scan_once (Suc n) s"
proof (cases s)
  case Nil
  then show ?thesis by simp
next
  case (Cons c cs)
  have o: "parse_object (Suc n) t = parse_object n t" if "skip_ws cs = q # t" for q t
  proof -
    from skip_ws_shorter [OF that] n Cons have "2 * length t + 2 \<le> n"
      by simp
    with ih show ?thesis
      by (simp add: enough_def)
  qed
  have a: "parse_array (Suc n) (q # t) = parse_array n (q # t)" if "skip_ws cs = q # t" for q t
  proof -
    from skip_ws_shorter [OF that] n Cons have "2 * length (q # t) + 3 \<le> n"
      by simp
    with ih show ?thesis
      by (simp add: enough_def)
  qed
  show ?thesis
    by (simp only: scan_once.simps(2) [of "Suc n" s] scan_once.simps(2) [of n s])
       (simp add: Cons o a split: list.splits
          del: scan_once.simps parse_array.simps parse_object.simps)
qed

lemma parse_array_enough_step:
  assumes ih: "enough n" and n: "2 * length s + 3 \<le> Suc n"
  shows "parse_array (Suc (Suc n)) s = parse_array (Suc n) s"
proof -
  from n ih have v: "scan_once (Suc n) s = scan_once n s"
    by (simp add: enough_def)
  have a: "parse_array (Suc n) (skip_ws r') = parse_array n (skip_ws r')"
    if "scan_once n s = Inr (x, r1)" "skip_ws r1 = c # r'" for x r1 c r'
  proof -
    from scan_once_shorter [OF that(1)] skip_ws_shorter [OF that(2)] skip_ws_le [of r'] n
    have "2 * length (skip_ws r') + 3 \<le> n"
      by simp
    with ih show ?thesis
      by (simp add: enough_def)
  qed
  show ?thesis
    by (simp only: parse_array.simps(2) [of "Suc n" s] parse_array.simps(2) [of n s] v)
       (simp add: a split: sum.splits list.splits
          del: scan_once.simps parse_array.simps parse_object.simps)
qed

lemma parse_object_enough_step:
  assumes ih: "enough n" and n: "2 * length s + 2 \<le> Suc n"
  shows "parse_object (Suc (Suc n)) s = parse_object (Suc n) s"
proof -
  have v: "scan_once (Suc n) (skip_ws r2) = scan_once n (skip_ws r2)"
    if "scanstring s = Inr (key, r1)" "skip_ws r1 = c # r2" for key r1 c r2
  proof -
    from scanstring_shorter [OF that(1)] skip_ws_shorter [OF that(2)] skip_ws_le [of r2] n
    have "2 * length (skip_ws r2) + 2 \<le> n"
      by simp
    with ih show ?thesis
      by (simp add: enough_def)
  qed
  have o: "parse_object (Suc n) r5 = parse_object n r5"
    if "scanstring s = Inr (key, r1)" "skip_ws r1 = c # r2"
      "scan_once n (skip_ws r2) = Inr (x, r3)" "skip_ws r3 = d # r4" "skip_ws r4 = q # r5"
    for key r1 c r2 x r3 d r4 q r5
  proof -
    from scanstring_shorter [OF that(1)] skip_ws_shorter [OF that(2)] skip_ws_le [of r2]
      scan_once_shorter [OF that(3)] skip_ws_shorter [OF that(4)] skip_ws_shorter [OF that(5)] n
    have "2 * length r5 + 2 \<le> n"
      by simp
    with ih show ?thesis
      by (simp add: enough_def)
  qed
  show ?thesis
    by (simp only: parse_object.simps(2) [of "Suc n" s] parse_object.simps(2) [of n s])
       (simp add: v o split: sum.splits list.splits
          del: scan_once.simps parse_array.simps parse_object.simps)
qed

lemma enough_all: "enough n"
proof (induction n)
  case 0
  show ?case by (simp add: enough_def)
next
  case (Suc n)
  show ?case
    unfolding enough_def
    using scan_once_enough_step [OF Suc] parse_array_enough_step [OF Suc]
      parse_object_enough_step [OF Suc]
    by blast
qed

lemma scan_once_more_fuel:
  assumes "2 * length s + 2 \<le> n"
  shows "scan_once (n + k) s = scan_once n s"
proof (induction k)
  case 0
  show ?case by simp
next
  case (Suc k)
  from assms enough_all [of "n + k"] have "scan_once (Suc (n + k)) s = scan_once (n + k) s"
    by (simp add: enough_def)
  with Suc show ?case by simp
qed

lemma json_loads_fuel:
  assumes "2 * length s + 2 \<le> n"
  shows "(case scan_once n (skip_ws s) of
            Inl e \<Rightarrow> Inl e
          | Inr (obj, r) \<Rightarrow> if skip_ws r = [] then Inr obj else Inl JSONDecodeError) =
         json_loads s"
proof -
  from assms obtain k where n: "n = (2 * length s + 2) + k"
    using le_Suc_ex by blast
  have "2 * length (skip_ws s) + 2 \<le> 2 * length s + 2"
    using skip_ws_le [of s] by simp
  from scan_once_more_fuel [OF this, of k] show ?thesis
    by (simp add: json_loads_def n)
qed

section \<open>Encoding and decoding\<close>

lemma hex_val_hex_digit: "n < 16 \<Longrightarrow> hex_val (hex_digit n) = Some n"
  by (auto simp: hex_val_def hex_digit_def Let_def)

lemma of_char_less_256: "(of_char c :: nat) < 256"
  by (rule nat_of_char_less_256)

lemma decode_escape:
  "decode_uXXXX (CHR ''0'') (CHR ''0'') (hex_digit (of_char c div 16)) (hex_digit (of_char c mod 16))
     = Some (of_char c)"
proof -
  have d: "(of_char c :: nat) div 16 < 16"
    using of_char_less_256 [of c] by arith
  have z: "hex_val (CHR ''0'') = Some 0"
    by (simp add: hex_val_def)
  have h: "hex_val (hex_digit (of_char c div 16)) = Some (of_char c div 16)"
    using d by (rule hex_val_hex_digit)
  have l: "hex_val (hex_digit (of_char c mod 16)) = Some (of_char c mod 16)"
    by (rule hex_val_hex_digit) simp
  show ?thesis
    by (simp add: decode_uXXXX_def z h l)
qed

lemma scanstring_escape_char: "scanstring (escape_char c @ t) = prepend c (scanstring t)"
proof (cases "(0x20::nat) \<le> of_char c \<and> (of_char c :: nat) \<le> 0x7E")
  case True
  then have "\<not> (of_char c :: nat) < 0x20" by simp
  with True show ?thesis
    by (auto simp: escape_char_def backslash_def)
next
  case False
  show ?thesis
    using False of_char_less_256 [of c]
    by (auto simp: escape_char_def backslash_def decode_escape)
qed

lemma scanstring_concat_escape:
  "scanstring (concat (map escape_char s) @ CHR 0x22 # rest) = Inr (s, rest)"
  by (induction s) (simp_all add: scanstring_escape_char prepend_def)

lemma scan_once_string:
  "scan_once (Suc n) (encode_basestring_ascii v @ rest) = Inr (JString v, rest)"
  by (simp add: encode_basestring_ascii_def scanstring_concat_escape)

lemma skip_ws_Cons: "skip_ws (c # s) = (if is_ws c then skip_ws s else c # s)"
  by (simp add: skip_ws_def)

lemma skip_ws_Nil: "skip_ws [] = []"
  by (simp add: skip_ws_def)

lemma skip_ws_encode:
  "skip_ws (encode_basestring_ascii v @ rest) = encode_basestring_ascii v @ rest"
  by (simp add: encode_basestring_ascii_def skip_ws_Cons is_ws_def)

lemma dumps_items_Cons:
  "dumps_items ((k, v) # kvs) =
     encode_basestring_ascii k @ '': '' @ encode_basestring_ascii v @
     (if kvs = [] then [] else '', '' @ dumps_items kvs)"
  by (cases kvs) auto

lemma dumps_items_quote:
  "kvs \<noteq> [] \<Longrightarrow> \<exists>t. dumps_items kvs = CHR 0x22 # t"
  by (cases kvs) (auto simp: dumps_items_Cons encode_basestring_ascii_def)

lemma parse_object_step:
  "parse_object (Suc (Suc m))
     (concat (map escape_char k) @ CHR 0x22 # ('': '' @ encode_basestring_ascii v @ tail)) =
     (case skip_ws tail of
        [] \<Rightarrow> Inl JSONDecodeError
      | d # r4 \<Rightarrow>
          if d = CHR ''}'' then Inr ([(k, JString v)], r4)
          else if d = CHR '','' then
            (case skip_ws r4 of
               [] \<Rightarrow> Inl JSONDecodeError
             | q # r5 \<Rightarrow>
                 if q = CHR 0x22 then
                   (case parse_object (Suc m) r5 of
                      Inl e \<Rightarrow> Inl e
                    | Inr (pairs, r6) \<Rightarrow> Inr ((k, JString v) # pairs, r6))
                 else Inl JSONDecodeError)
          else Inl JSONDecodeError)"
  by (subst parse_object.simps)
     (simp add: scanstring_concat_escape skip_ws_Cons is_ws_def skip_ws_encode scan_once_string
        del: parse_object.simps scan_once.simps)

lemma parse_object_dumps_items:
  "kvs \<noteq> [] \<Longrightarrow> length kvs < n \<Longrightarrow>
     parse_object n (tl (dumps_items kvs @ CHR ''}'' # rest)) = Inr (decoded kvs, rest)"
proof (induction kvs arbitrary: n)
  case Nil
  then show ?case by simp
next
  case (Cons kv kvs)
  obtain k v where kv: "kv = (k, v)" by (cases kv)
  from Cons.prems obtain m where n: "n = Suc (Suc m)" and m: "length kvs < Suc m"
    by (cases n; cases "n - 1") auto
  let ?tail = "(if kvs = [] then [] else '', '' @ dumps_items kvs) @ CHR ''}'' # rest"
  have shape: "tl (dumps_items (kv # kvs) @ CHR ''}'' # rest) =
      concat (map escape_char k) @ CHR 0x22 # ('': '' @ encode_basestring_ascii v @ ?tail)"
    by (simp add: kv dumps_items_Cons encode_basestring_ascii_def)
  show ?case
  proof (cases "kvs = []")
    case True
    then show ?thesis
      unfolding shape n parse_object_step
      by (simp add: skip_ws_Cons is_ws_def decoded_def kv)
  next
    case False
    then obtain t where t: "dumps_items kvs = CHR 0x22 # t"
      using dumps_items_quote by blast
    from False m have "parse_object (Suc m) (tl (dumps_items kvs @ CHR ''}'' # rest)) = Inr (decoded kvs, rest)"
      by (intro Cons.IH) auto
    then have ih: "parse_object (Suc m) (t @ CHR ''}'' # rest) = Inr (decoded kvs, rest)"
      by (simp add: t)
    from False show ?thesis
      unfolding shape n parse_object_step
      by (simp add: skip_ws_Cons is_ws_def t ih decoded_def kv del: parse_object.simps)
  qed
qed

lemma length_dumps_items: "length kvs \<le> length (dumps_items kvs)"
  by (induction kvs rule: dumps_items.induct) (auto simp: encode_basestring_ascii_def)

lemma json_loads_json_dumps:
  "json_loads (json_dumps d) = Inr (JObject (dict_update [] (decoded d)))"
proof (cases "d = []")
  case True
  have "json_loads ''{}'' = Inr (JObject [])"
    by code_simp
  with True show ?thesis
    by (simp add: json_dumps_def decoded_def)
next
  case False
  then obtain t where t: "dumps_items d = CHR 0x22 # t"
    using dumps_items_quote by blast
  obtain n where n: "2 * length (json_dumps d) + 2 = Suc n" and l: "length d < n"
    using length_dumps_items [of d] by (cases "2 * length (json_dumps d) + 2") (auto simp: json_dumps_def)
  from False l have "parse_object n (tl (dumps_items d @ CHR ''}'' # [])) = Inr (decoded d, [])"
    by (rule parse_object_dumps_items)
  then have p: "parse_object n (t @ ''}'') = Inr (decoded d, [])"
    by (simp add: t)
  have s: "skip_ws (json_dumps d) = CHR ''{'' # CHR 0x22 # t @ ''}''"
    by (simp add: json_dumps_def skip_ws_Cons is_ws_def t)
  show ?thesis
    unfolding json_loads_def n s
    by (simp add: skip_ws_Cons skip_ws_Nil is_ws_def p del: parse_object.simps)
qed

lemma alist_update_fresh: "k \<notin> fst ` set d \<Longrightarrow> AList.update k v d = d @ [(k, v)]"
  by (induction d) auto

lemma dict_update_distinct: "distinct (map fst (d @ xs)) \<Longrightarrow> dict_update d xs = d @ xs"
proof (induction d xs rule: dict_update.induct)
  case (1 d)
  then show ?case by simp
next
  case (2 d k v kvs)
  from "2.prems" have "k \<notin> fst ` set d" by auto
  then have u: "dict_set k v d = d @ [(k, v)]"
    by (simp add: dict_set_def alist_update_fresh)
  from "2.prems" have "distinct (map fst (dict_set k v d @ kvs))"
    by (simp add: u)
  with "2.IH" u show ?case by simp
qed

lemma wf_dict_decoded: "wf_dict d \<Longrightarrow> dict_update [] (decoded d) = decoded d"
  by (rule dict_update_distinct [of "[]", simplified])
     (simp add: wf_dict_def decoded_def comp_def case_prod_beta)

lemma json_roundtrip: "wf_dict d \<Longrightarrow> json_loads (json_dumps d) = Inr (JObject (decoded d))"
  by (simp add: json_loads_json_dumps wf_dict_decoded)


lemma dict_get_dict_update:
  assumes "wf_dict other"
  shows "dict_get (dict_update d other) = dict_get d ++ dict_get other"
proof
  fix k
  show "dict_get (dict_update d other) k = (dict_get d ++ dict_get other) k"
  proof (cases "map_of other k")
    case None
    then have "k \<notin> dict_keys other"
      by (simp add: dict_keys_def map_of_eq_None_iff)
    with None show ?thesis
      by (simp add: dict_get_dict_update_other map_add_def) (simp add: dict_get_def)
  next
    case (Some v)
    then have "(k, v) \<in> set other"
      by (rule map_of_SomeD)
    with assms have "dict_get (dict_update d other) k = Some v"
      by (rule dict_get_dict_update_same)
    with Some show ?thesis
      by (simp add: map_add_def) (simp add: dict_get_def)
  qed
qed

section \<open>Facts about the diff\<close>

lemma diff_loaded:
  assumes "json_loads (dict_get_default (local_app_data rel) ''data'' ''{}'') = Inr (JObject old)"
  shows "diff rel =
     Inr (\<lparr>added = dict_keys (new_data_of rel) - dict_keys old,
           changed = Set.filter
             (\<lambda>key. dict_get old key \<noteq> map_option JString (dict_get (new_data_of rel) key))
             (dict_keys old \<inter> dict_keys (new_data_of rel)),
           deleted = dict_keys old - dict_keys (new_data_of rel)\<rparr>,
          rel\<lparr>local_app_data :=
            dict_set ''data'' (json_dumps (new_data_of rel)) (local_app_data rel)\<rparr>)"
  using assms by (simp add: diff_def new_data_of_def Let_def)

lemma diff_InrD:
  assumes "diff rel = Inr (d, rel')"
  shows "\<exists>old. json_loads (dict_get_default (local_app_data rel) ''data'' ''{}'') = Inr (JObject old)"
  using assms by (auto simp: diff_def split: sum.splits json.splits)

lemma diff_Inl:
  assumes "json_loads (dict_get_default (local_app_data rel) ''data'' ''{}'') = Inl e"
  shows "diff rel = Inl e"
  using assms by (simp add: diff_def)

lemma dict_get_eq_map_of: "dict_get d = map_of d"
  by (rule ext) (simp add: dict_get_def)

lemma dict_keys_dom: "dict_keys d = dom (dict_get d)"
  by (simp add: dict_keys_def dict_get_eq_map_of dom_map_of_conv_image_fst)

lemma dict_get_new_data_of: "dict_get (new_data_of rel) = peer_view rel"
proof
  fix k
  have "map_of (filter (\<lambda>(key, value). key \<noteq> ''data'') xs) k = ((map_of xs)(''data'' := None)) k" for xs :: bag
    by (induction xs) auto
  then show "dict_get (new_data_of rel) k = peer_view rel k"
    by (simp add: dict_get_def new_data_of_def peer_view_def)
qed

lemma wf_dict_new_data_of: "wf_dict (remote_app_data rel) \<Longrightarrow> wf_dict (new_data_of rel)"
  by (simp add: wf_dict_def new_data_of_def distinct_map_filter)

lemma dict_keys_decoded: "dict_keys (decoded d) = dict_keys d"
  by (induction d) (auto simp: dict_keys_def decoded_def)

lemma dict_get_decoded: "dict_get (decoded d) k = map_option JString (dict_get d k)"
  by (induction d) (auto simp: dict_get_def decoded_def)

subsection \<open>The delta of the edited relation\<close>

lemma dom_old: "dom (dict_get (decoded requested_bag)) = {''database'', ''extra-user-roles''}"
  unfolding dict_keys_dom [symmetric] dict_keys_decoded
  by (simp add: dict_keys_def requested_bag_def)

lemma dom_view: "dom (peer_view edited_relation) = {''database'', ''version''}"
  unfolding dict_get_new_data_of [symmetric] dict_keys_dom [symmetric]
  by (simp add: dict_keys_def new_data_of_def edited_relation_def)

lemma old_database: "dict_get (decoded requested_bag) ''database'' = Some (JString ''app_db'')"
  by (simp add: dict_get_decoded) (simp add: dict_get_def requested_bag_def)

lemma view_database: "peer_view edited_relation ''database'' = Some ''other_db''"
  by (simp add: peer_view_def edited_relation_def dict_get_def)

lemma delta_edited:
  "spec_delta (dict_get (decoded requested_bag)) (peer_view edited_relation) =
     \<lparr>added = {''version''}, changed = {''database''}, deleted = {''extra-user-roles''}\<rparr>"
proof -
  have a: "{''database'', ''version''} - {''database'', ''extra-user-roles''} = {''version''}"
    by auto
  have d: "{''database'', ''extra-user-roles''} - {''database'', ''version''} = {''extra-user-roles''}"
    by auto
  have i: "{''database'', ''extra-user-roles''} \<inter> {''database'', ''version''} = {''database''}"
    by auto
  have c: "{k \<in> {''database''}. dict_get (decoded requested_bag) k \<noteq>
             map_option JString (peer_view edited_relation k)} = {''database''}"
    using old_database view_database by auto
  show ?thesis
    unfolding spec_delta_def dom_old dom_view a d i c ..
qed


subsection \<open>Decoding the stored snapshot, and the handlers on a failed diff\<close>

lemma diff_event_found:
  assumes "get_relation c (event_relation ev) = Some rel"
  shows "diff_event c ev =
     (case diff rel of
        Inl e \<Rightarrow> Inl e
      | Inr (d, rel') \<Rightarrow>
          Inr (d, c\<lparr>relations :=
                   modify_relation (event_relation ev) (\<lambda>r. rel') (relations c)\<rparr>))"
  using assms by (simp add: diff_event_def)

lemma loads_requested_bag: "json_loads (json_dumps requested_bag) = Inr (JObject (decoded requested_bag))"
  by (rule json_roundtrip) (simp add: wf_dict_def requested_bag_def)

lemma loads_not_json: "json_loads ''not json'' = Inl JSONDecodeError"
  by code_simp

lemma loads_empty_object: "json_loads ''{}'' = Inr (JObject [])"
  by code_simp

lemma dict_get_None_iff: "dict_get d k = None \<longleftrightarrow> k \<notin> dict_keys d"
  by (simp add: dict_get_def dict_keys_def map_of_eq_None_iff)

lemma dict_get_default_None: "dict_get d k = None \<Longrightarrow> dict_get_default d k dflt = dflt"
  by (simp add: dict_get_default_def dict_get_def)

lemma dict_get_default_Some: "dict_get d k = Some v \<Longrightarrow> dict_get_default d k dflt = v"
  by (simp add: dict_get_default_def dict_get_def)

lemma handlers_diff_error:
  assumes "is_leader c" and "diff_event c ev = Inl e"
  shows "DatabaseProvides_on_relation_changed c ev = Inl e"
    and "KafkaProvides_on_relation_changed c ev = Inl e"
    and "ZookeeperProvides_on_relation_changed c ev = Inl e"
  using assms
  by (simp_all add: DatabaseProvides_on_relation_changed_def KafkaProvides_on_relation_changed_def
        ZookeeperProvides_on_relation_changed_def)

lemma diff_roles_dropped:
  "diff roles_dropped_relation =
     Inr (\<lparr>added = {}, changed = {}, deleted = {''extra-user-roles''}\<rparr>,
          roles_dropped_relation\<lparr>local_app_data :=
            [(''data'', json_dumps [(''database'', ''app_db'')])]\<rparr>)"
proof -
  have l: "json_loads (dict_get_default (local_app_data roles_dropped_relation) ''data'' ''{}'') =
      Inr (JObject (decoded requested_bag))"
    by (simp add: roles_dropped_relation_def dict_get_default_def loads_requested_bag)
  have n: "new_data_of roles_dropped_relation = [(''database'', ''app_db'')]"
    by (simp add: new_data_of_def roles_dropped_relation_def)
  have k: "dict_keys (decoded requested_bag) = {''database'', ''extra-user-roles''}"
    by (simp add: dict_keys_decoded) (simp add: dict_keys_def requested_bag_def)
  have g: "dict_get (decoded requested_bag) ''database'' = Some (JString ''app_db'')"
    by (rule old_database)
  have a: "{''database''} - {''database'', ''extra-user-roles''} = ({} :: string set)"
    by auto
  have e: "{''database'', ''extra-user-roles''} - {''database''} = {''extra-user-roles''}"
    by auto
  have i: "{''database'', ''extra-user-roles''} \<inter> {''database''} = {''database''}"
    by auto
  show ?thesis
    unfolding diff_loaded [OF l] n k
    by (simp add: dict_keys_def a e i g [unfolded dict_get_def] dict_get_def)
       (simp add: roles_dropped_relation_def dict_set_def)
qed


section \<open>Facts about the charm, the snapshot and the handlers\<close>

lemma get_relation_modify:
  assumes "get_relation c rid = Some r" and "rel_id (f r) = rel_id r"
  shows "get_relation (c\<lparr>relations := modify_relation rid f (relations c)\<rparr>) rid = Some (f r)"
proof -
  from assms(1) have "rel_id r = rid"
    by (auto simp: get_relation_def find_Some_iff)
  with assms show ?thesis
    by (simp add: get_relation_def find_modify_relation_same)
qed

lemma get_relation_modify_other:
  assumes "rid' \<noteq> rid" and "\<And>r. rel_id (f r) = rel_id r"
  shows "get_relation (c\<lparr>relations := modify_relation rid f (relations c)\<rparr>) rid' = get_relation c rid'"
  using assms by (simp add: get_relation_def find_modify_relation_other)

lemma get_relation_remote_write:
  assumes "get_relation c rid = Some r"
  shows "get_relation (remote_write c rid key val) rid =
     Some (r\<lparr>remote_app_data := dict_set key val (remote_app_data r)\<rparr>)"
  unfolding remote_write_def
  by (rule get_relation_modify [OF assms]) simp

lemma relation_data_get_found:
  assumes "get_relation c (relation ev) = Some rel"
  shows "relation_data_get c ev key = Inr (dict_get (remote_app_data rel) key)"
  using assms by (simp add: relation_data_get_def)

lemma relation_data_get_written:
  assumes "get_relation c (relation ev) = Some rel"
  shows "relation_data_get (remote_write c (relation ev) key val) ev key = Inr (Some val)"
  using get_relation_remote_write [OF assms, of key val]
  by (simp add: relation_data_get_def dict_get_dict_set)

lemma diff_returned:
  assumes "diff rel = Inr (d, rel')"
  shows "rel' = rel\<lparr>local_app_data :=
      dict_set ''data'' (json_dumps (new_data_of rel)) (local_app_data rel)\<rparr>"
proof -
  from assms obtain old where
    "json_loads (dict_get_default (local_app_data rel) ''data'' ''{}'') = Inr (JObject old)"
    using diff_InrD by blast
  from diff_loaded [OF this] assms show ?thesis
    by simp
qed

lemma snapshot_diff:
  assumes "diff rel = Inr (d, rel')"
  shows "snapshot rel' = Some (json_dumps (new_data_of rel'))"
    and "remote_app_data rel' = remote_app_data rel"
    and "rel_id rel' = rel_id rel"
  unfolding diff_returned [OF assms]
  by (simp_all add: snapshot_def dict_get_dict_set new_data_of_def)

lemma update_relation_data_snapshot:
  assumes "''data'' \<notin> dict_keys F" and "update_relation_data c rid F = Inr c'"
  shows "map_option snapshot (get_relation c' rid') = map_option snapshot (get_relation c rid')"
proof (cases "is_leader c")
  case False
  with assms(2) show ?thesis
    by (simp add: update_relation_data_def)
next
  case True
  with assms(2) obtain r where r: "get_relation c rid = Some r"
    by (auto simp: update_relation_data_def split: option.splits)
  let ?f = "\<lambda>r. r\<lparr>local_app_data := dict_update (local_app_data r) F\<rparr>"
  from True r assms(2) have c': "c' = c\<lparr>relations := modify_relation rid ?f (relations c)\<rparr>"
    by (simp add: update_relation_data_def)
  show ?thesis
  proof (cases "rid' = rid")
    case True
    have "get_relation c' rid = Some (?f r)"
      unfolding c' by (rule get_relation_modify [OF r]) simp
    with True r assms(1) show ?thesis
      by (simp add: snapshot_def dict_get_dict_update_other)
  next
    case False
    then have "get_relation c' rid' = get_relation c rid'"
      unfolding c' by (rule get_relation_modify_other) simp
    then show ?thesis by simp
  qed
qed

lemma call_setter_snapshot:
  assumes "call_setter c rid s = Inr c'"
  shows "map_option snapshot (get_relation c' rid') = map_option snapshot (get_relation c rid')"
proof (cases s)
  case (SetVersion x)
  with assms show ?thesis
    by (intro update_relation_data_snapshot [of "[(''version'', x)]" c rid])
       (simp_all add: set_version_def dict_keys_def)
next
  case (SetCredentials u p)
  with assms show ?thesis
    by (intro update_relation_data_snapshot [of "[(''username'', u), (''password'', p)]" c rid])
       (simp_all add: set_credentials_def dict_keys_def)
next
  case (SetTls x)
  with assms show ?thesis
    by (intro update_relation_data_snapshot [of "[(''tls'', x)]" c rid])
       (simp_all add: set_tls_def dict_keys_def)
next
  case (SetTlsCa x)
  with assms show ?thesis
    by (intro update_relation_data_snapshot [of "[(''tls_ca'', x)]" c rid])
       (simp_all add: set_tls_ca_def dict_keys_def)
next
  case (SetEndpoints x)
  with assms show ?thesis
    by (intro update_relation_data_snapshot [of "[(''endpoints'', x)]" c rid])
       (simp_all add: set_endpoints_def dict_keys_def)
next
  case (SetReadOnlyEndpoints x)
  with assms show ?thesis
    by (intro update_relation_data_snapshot [of "[(''read-only-endpoints'', x)]" c rid])
       (simp_all add: set_read_only_endpoints_def dict_keys_def)
next
  case (SetReplset x)
  with assms show ?thesis
    by (intro update_relation_data_snapshot [of "[(''replset'', x)]" c rid])
       (simp_all add: set_replset_def dict_keys_def)
next
  case (SetUris x)
  with assms show ?thesis
    by (intro update_relation_data_snapshot [of "[(''uris'', x)]" c rid])
       (simp_all add: set_uris_def dict_keys_def)
qed

lemma diff_event_returned:
  assumes "get_relation c (event_relation ev) = Some rel" and "diff_event c ev = Inr (d, c')"
  shows "\<exists>rel'. diff rel = Inr (d, rel') \<and> get_relation c' (event_relation ev) = Some rel' \<and>
     is_leader c' = is_leader c"
proof -
  from assms obtain rel' where d: "diff rel = Inr (d, rel')"
    and c': "c' = c\<lparr>relations := modify_relation (event_relation ev) (\<lambda>r. rel') (relations c)\<rparr>"
    by (auto simp: diff_event_found split: sum.splits)
  have "get_relation c' (event_relation ev) = Some rel'"
    unfolding c' using get_relation_modify [OF assms(1), of "\<lambda>r. rel'"] snapshot_diff(3) [OF d]
    by simp
  with d c' show ?thesis by simp
qed

lemma diff_example_relation:
  "diff example_relation =
     Inr (\<lparr>added = {''database''}, changed = {}, deleted = {}\<rparr>, settled_relation)"
proof -
  have "json_loads (dict_get_default (local_app_data example_relation) ''data'' ''{}'') =
      Inr (JObject [])"
    by (simp add: example_relation_def dict_get_default_def loads_empty_object)
  from diff_loaded [OF this] show ?thesis
    by (simp add: new_data_of_def example_relation_def dict_keys_def dict_set_def
          settled_relation_def)
qed

lemma new_data_of_settled: "new_data_of settled_relation = [(''database'', ''app_db'')]"
  by (simp add: new_data_of_def settled_relation_def example_relation_def)

lemma diff_settled_relation:
  "diff settled_relation = Inr (\<lparr>added = {}, changed = {}, deleted = {}\<rparr>, settled_relation)"
proof -
  have "json_loads (json_dumps [(''database'', ''app_db'')]) =
      Inr (JObject (decoded [(''database'', ''app_db'')]))"
    by (rule json_roundtrip) (simp add: wf_dict_def)
  then have "json_loads (dict_get_default (local_app_data settled_relation) ''data'' ''{}'') =
      Inr (JObject [(''database'', JString ''app_db'')])"
    by (simp add: settled_relation_def dict_get_default_def decoded_def)
  from diff_loaded [OF this] show ?thesis
    unfolding new_data_of_settled
    by (simp add: dict_keys_def dict_get_def) (simp add: settled_relation_def dict_set_def)
qed

lemma get_relation_settled: "get_relation settled_charm 1 = Some settled_relation"
  by (simp add: settled_charm_def get_relation_def settled_relation_def example_relation_def)

lemma diff_event_settled:
  "diff_event settled_charm example_event =
     Inr (\<lparr>added = {}, changed = {}, deleted = {}\<rparr>, settled_charm)"
proof -
  have "get_relation settled_charm (event_relation example_event) = Some settled_relation"
    by (simp add: get_relation_settled example_event_def)
  from diff_event_found [OF this] show ?thesis
    by (simp add: diff_settled_relation)
       (simp add: settled_charm_def example_event_def settled_relation_def example_relation_def)
qed

lemma database_handler:
  assumes "is_leader c" and "diff_event c ev = Inr (d, c')"
  shows "DatabaseProvides_on_relation_changed c ev =
     Inr (c', if ''database'' \<in> added d
              then [\<lparr>kind = DatabaseRequestedEvent, relation = event_relation ev,
                     app = event_app ev, unit = event_unit ev\<rparr>]
              else [])"
  using assms
  by (simp add: DatabaseProvides_on_relation_changed_def getattr_self_def getattr_def emit_def)

lemma topic_created_missing: "getattr_self KafkaProvides ''topic_created'' = Inl (AttributeError ''topic_created'')"
  by (simp add: getattr_self_def provider_attributes_def)

lemma topic_created_missing_zookeeper:
  "getattr_self ZookeeperProvides ''topic_created'' = Inl (AttributeError ''topic_created'')"
  by (simp add: getattr_self_def provider_attributes_def)

lemma kafka_handler:
  assumes "is_leader c" and "diff_event c ev = Inr (d, c')"
  shows "KafkaProvides_on_relation_changed c ev =
     (if ''topic'' \<in> added d then Inl (AttributeError ''topic_created'') else Inr (c', []))"
  using assms
  by (simp add: KafkaProvides_on_relation_changed_def topic_created_missing)

lemma zookeeper_handler:
  assumes "is_leader c" and "diff_event c ev = Inr (d, c')"
  shows "ZookeeperProvides_on_relation_changed c ev =
     (if ''chroot'' \<in> added d then Inl (AttributeError ''topic_created'') else Inr (c', []))"
  using assms
  by (simp add: ZookeeperProvides_on_relation_changed_def topic_created_missing_zookeeper)

lemma diff_first_seen:
  assumes "local_app_data rel = []"
  shows "diff rel =
     Inr (\<lparr>added = dict_keys (new_data_of rel), changed = {}, deleted = {}\<rparr>,
          rel\<lparr>local_app_data := [(''data'', json_dumps (new_data_of rel))]\<rparr>)"
proof -
  from assms have "json_loads (dict_get_default (local_app_data rel) ''data'' ''{}'') = Inr (JObject [])"
    by (simp add: dict_get_default_def loads_empty_object)
  from diff_loaded [OF this] assms show ?thesis
    by (simp add: dict_keys_def dict_set_def)
qed

lemma database_requested_emitted:
  "\<exists>c'. DatabaseProvides_on_relation_changed (example_charm True) example_event =
     Inr (c', [\<lparr>kind = DatabaseRequestedEvent, relation = 1, app = ''application'',
               unit = Some ''application/0''\<rparr>])"
proof -
  have g: "get_relation (example_charm True) (event_relation example_event) = Some example_relation"
    by (simp add: example_charm_def get_relation_def example_event_def example_relation_def)
  have l: "is_leader (example_charm True)"
    by (simp add: example_charm_def)
  obtain c' where "diff_event (example_charm True) example_event =
      Inr (\<lparr>added = {''database''}, changed = {}, deleted = {}\<rparr>, c')"
    by (simp add: diff_event_found [OF g] diff_example_relation)
  from database_handler [OF l this] show ?thesis
    by (simp add: example_event_def)
qed


lemma diff_event_disjoint:
  assumes "diff_event c ev = Inr (d, c')"
  shows "added d \<inter> (changed d \<union> deleted d) = {}"
proof -
  from assms obtain rel rel' where "diff rel = Inr (d, rel')"
    by (auto simp: diff_event_def split: option.splits sum.splits)
  moreover then obtain old where
    "json_loads (dict_get_default (local_app_data rel) ''data'' ''{}'') = Inr (JObject old)"
    using diff_InrD by blast
  ultimately show ?thesis
    by (auto simp: diff_loaded)
qed

lemma database_handler_returned:
  assumes "is_leader c" and "DatabaseProvides_on_relation_changed c ev = Inr (c1, evs)"
  shows "\<exists>d. diff_event c ev = Inr (d, c1)"
  using assms
  by (auto simp: DatabaseProvides_on_relation_changed_def getattr_self_def getattr_def emit_def
        split: sum.splits if_splits)

lemma remote_write_leader: "is_leader (remote_write c rid key val) = is_leader c"
  by (simp add: remote_write_def)

lemma dict_get_peer: "key \<noteq> ''data'' \<Longrightarrow> dict_get (new_data_of rel) key = dict_get (remote_app_data rel) key"
  by (simp add: dict_get_new_data_of peer_view_def)

lemma dict_keys_member: "dict_get d k = Some v \<Longrightarrow> k \<in> dict_keys d"
  by (simp add: dict_keys_dom domI)

lemma changed_after_edit:
  assumes wf: "wf_dict (remote_app_data rel)"
    and first: "diff rel = Inr (d1, rel1)"
    and x: "dict_get (remote_app_data rel) key = Some x"
    and y: "y \<noteq> x"
    and key: "key \<noteq> ''data''"
  shows "\<exists>d2 rel2. diff (rel1\<lparr>remote_app_data := dict_set key y (remote_app_data rel1)\<rparr>) = Inr (d2, rel2) \<and>
     key \<in> changed d2 \<and> key \<notin> added d2"
proof -
  let ?new = "new_data_of rel"
  let ?r = "rel1\<lparr>remote_app_data := dict_set key y (remote_app_data rel1)\<rparr>"
  have rel1: "rel1 = rel\<lparr>local_app_data := dict_set ''data'' (json_dumps ?new) (local_app_data rel)\<rparr>"
    using first by (rule diff_returned)
  have "dict_get (local_app_data ?r) ''data'' = Some (json_dumps ?new)"
    by (simp add: rel1 dict_get_dict_set)
  then have "dict_get_default (local_app_data ?r) ''data'' ''{}'' = json_dumps ?new"
    by (rule dict_get_default_Some)
  moreover from wf have "json_loads (json_dumps ?new) = Inr (JObject (decoded ?new))"
    by (intro json_roundtrip wf_dict_new_data_of)
  ultimately have l: "json_loads (dict_get_default (local_app_data ?r) ''data'' ''{}'') =
      Inr (JObject (decoded ?new))"
    by simp
  from x key have ox: "dict_get ?new key = Some x"
    by (simp add: dict_get_peer)
  then have ok: "key \<in> dict_keys (decoded ?new)"
    by (simp add: dict_keys_decoded dict_keys_member)
  from key have ny: "dict_get (new_data_of ?r) key = Some y"
    by (simp add: dict_get_peer dict_get_dict_set)
  then have nk: "key \<in> dict_keys (new_data_of ?r)"
    by (rule dict_keys_member)
  from ox y ny have "dict_get (decoded ?new) key \<noteq> map_option JString (dict_get (new_data_of ?r) key)"
    by (simp add: dict_get_decoded)
  with ok nk show ?thesis
    unfolding diff_loaded [OF l] by simp
qed

lemma diff_event_example:
  "diff_event (example_charm True) example_event =
     Inr (\<lparr>added = {''database''}, changed = {}, deleted = {}\<rparr>, settled_charm)"
proof -
  have "get_relation (example_charm True) (event_relation example_event) = Some example_relation"
    by (simp add: example_charm_def get_relation_def example_event_def example_relation_def)
  from diff_event_found [OF this] show ?thesis
    by (simp add: diff_example_relation)
       (simp add: example_charm_def example_event_def example_relation_def settled_charm_def)
qed


section \<open>The claims\<close>

text \<open>
  C1. On the leader, with the trigger key added, the Kafka and the Zookeeper handler do
  not emit: both look up \<^verbatim>\<open>self.topic_created\<close>, a name that no provider object has
  (the event sources are attributes of \<^verbatim>\<open>self.on\<close>, and the Zookeeper one is
  \<^verbatim>\<open>znode_created\<close>), and fail with an attribute error after the diff has saved the
  snapshot. The database handler emits its event (\<open>database_requested_emitted\<close>).
\<close>

theorem emit_attribute_error:
  "is_leader \<lparr>is_leader = True, relations = [topic_relation]\<rparr> \<and>
   diff topic_relation =
     Inr (\<lparr>added = {''topic''}, changed = {}, deleted = {}\<rparr>,
          topic_relation\<lparr>local_app_data := [(''data'', json_dumps [(''topic'', ''orders'')])]\<rparr>) \<and>
   KafkaProvides_on_relation_changed \<lparr>is_leader = True, relations = [topic_relation]\<rparr> example_event
     = Inl (AttributeError ''topic_created'') \<and>
   diff chroot_relation =
     Inr (\<lparr>added = {''chroot''}, changed = {}, deleted = {}\<rparr>,
          chroot_relation\<lparr>local_app_data := [(''data'', json_dumps [(''chroot'', ''/app'')])]\<rparr>) \<and>
   ZookeeperProvides_on_relation_changed \<lparr>is_leader = True, relations = [chroot_relation]\<rparr> example_event
     = Inl (AttributeError ''topic_created'')"
proof -
  have t: "diff topic_relation =
     Inr (\<lparr>added = {''topic''}, changed = {}, deleted = {}\<rparr>,
          topic_relation\<lparr>local_app_data := [(''data'', json_dumps [(''topic'', ''orders'')])]\<rparr>)"
    using diff_first_seen [of topic_relation]
    by (simp add: topic_relation_def new_data_of_def dict_keys_def)
  have z: "diff chroot_relation =
     Inr (\<lparr>added = {''chroot''}, changed = {}, deleted = {}\<rparr>,
          chroot_relation\<lparr>local_app_data := [(''data'', json_dumps [(''chroot'', ''/app'')])]\<rparr>)"
    using diff_first_seen [of chroot_relation]
    by (simp add: chroot_relation_def new_data_of_def dict_keys_def)
  have gt: "get_relation \<lparr>is_leader = True, relations = [topic_relation]\<rparr>
      (event_relation example_event) = Some topic_relation"
    by (simp add: get_relation_def example_event_def topic_relation_def)
  have gz: "get_relation \<lparr>is_leader = True, relations = [chroot_relation]\<rparr>
      (event_relation example_event) = Some chroot_relation"
    by (simp add: get_relation_def example_event_def chroot_relation_def)
  have k: "KafkaProvides_on_relation_changed \<lparr>is_leader = True, relations = [topic_relation]\<rparr>
      example_event = Inl (AttributeError ''topic_created'')"
    by (simp add: KafkaProvides_on_relation_changed_def diff_event_found [OF gt] t
          topic_created_missing)
  have zk: "ZookeeperProvides_on_relation_changed \<lparr>is_leader = True, relations = [chroot_relation]\<rparr>
      example_event = Inl (AttributeError ''topic_created'')"
    by (simp add: ZookeeperProvides_on_relation_changed_def diff_event_found [OF gz] z
          topic_created_missing_zookeeper)
  from t z k zk show ?thesis by simp
qed

text \<open>
  C2, as amended. With no value stored under \<^verbatim>\<open>"data"\<close> the old data is the empty
  dictionary and the diff returns: every key of the new data is added. With a stored
  value that \<^verbatim>\<open>json.loads\<close> rejects, the diff fails with the decoder's error, and so
  does every handler that the leader runs for the relation: the error is not recovered.
  The counterexample is the relation whose snapshot is the text \<^verbatim>\<open>not json\<close>.
\<close>

theorem malformed_snapshot:
  "(dict_get (local_app_data rel) ''data'' = None \<longrightarrow>
      (\<exists>rel'. diff rel =
         Inr (\<lparr>added = dict_keys (new_data_of rel), changed = {}, deleted = {}\<rparr>, rel'))) \<and>
   (dict_get (local_app_data rel) ''data'' = Some s \<and> json_loads s = Inl e \<longrightarrow>
      diff rel = Inl e \<and>
      (is_leader c \<and> get_relation c (event_relation ev) = Some rel \<longrightarrow>
         DatabaseProvides_on_relation_changed c ev = Inl e \<and>
         KafkaProvides_on_relation_changed c ev = Inl e \<and>
         ZookeeperProvides_on_relation_changed c ev = Inl e))"
proof (intro conjI impI)
  assume "dict_get (local_app_data rel) ''data'' = None"
  then have "json_loads (dict_get_default (local_app_data rel) ''data'' ''{}'') = Inr (JObject [])"
    by (simp add: dict_get_default_None loads_empty_object)
  from diff_loaded [OF this]
  show "\<exists>rel'. diff rel =
         Inr (\<lparr>added = dict_keys (new_data_of rel), changed = {}, deleted = {}\<rparr>, rel')"
    by (simp add: dict_keys_def)
next
  assume a: "dict_get (local_app_data rel) ''data'' = Some s \<and> json_loads s = Inl e"
  then have l: "json_loads (dict_get_default (local_app_data rel) ''data'' ''{}'') = Inl e"
    by (simp add: dict_get_default_Some)
  then show d: "diff rel = Inl e"
    by (rule diff_Inl)
  assume b: "is_leader c \<and> get_relation c (event_relation ev) = Some rel"
  with d have f: "diff_event c ev = Inl e"
    by (simp add: diff_event_found)
  from b f show "DatabaseProvides_on_relation_changed c ev = Inl e"
    by (simp add: handlers_diff_error)
  from b f show "KafkaProvides_on_relation_changed c ev = Inl e"
    by (simp add: handlers_diff_error)
  from b f show "ZookeeperProvides_on_relation_changed c ev = Inl e"
    by (simp add: handlers_diff_error)
qed

theorem malformed_snapshot_witness:
  "dict_get (local_app_data (example_relation\<lparr>local_app_data := []\<rparr>)) ''data'' = None \<and>
   (\<exists>rel'. diff (example_relation\<lparr>local_app_data := []\<rparr>) =
      Inr (\<lparr>added = {''database''}, changed = {}, deleted = {}\<rparr>, rel')) \<and>
   dict_get (local_app_data corrupt_relation) ''data'' = Some ''not json'' \<and>
   json_loads ''not json'' = Inl JSONDecodeError \<and>
   diff corrupt_relation = Inl JSONDecodeError \<and>
   is_leader \<lparr>is_leader = True, relations = [corrupt_relation]\<rparr> \<and>
   get_relation \<lparr>is_leader = True, relations = [corrupt_relation]\<rparr> (event_relation example_event)
     = Some corrupt_relation \<and>
   DatabaseProvides_on_relation_changed \<lparr>is_leader = True, relations = [corrupt_relation]\<rparr>
     example_event = Inl JSONDecodeError \<and>
   KafkaProvides_on_relation_changed \<lparr>is_leader = True, relations = [corrupt_relation]\<rparr>
     example_event = Inl JSONDecodeError \<and>
   ZookeeperProvides_on_relation_changed \<lparr>is_leader = True, relations = [corrupt_relation]\<rparr>
     example_event = Inl JSONDecodeError"
proof -
  let ?c = "\<lparr>is_leader = True, relations = [corrupt_relation]\<rparr>"
  have n: "dict_get (local_app_data (example_relation\<lparr>local_app_data := []\<rparr>)) ''data'' = None"
    by (simp add: dict_get_def)
  have k: "dict_keys (new_data_of (example_relation\<lparr>local_app_data := []\<rparr>)) = {''database''}"
    by (simp add: dict_keys_def new_data_of_def example_relation_def)
  have s: "dict_get (local_app_data corrupt_relation) ''data'' = Some ''not json''"
    by (simp add: dict_get_def corrupt_relation_def)
  have g: "is_leader ?c \<and> get_relation ?c (event_relation example_event) = Some corrupt_relation"
    by (simp add: get_relation_def example_event_def corrupt_relation_def)
  from malformed_snapshot [of "example_relation\<lparr>local_app_data := []\<rparr>"] n k
  have 1: "\<exists>rel'. diff (example_relation\<lparr>local_app_data := []\<rparr>) =
      Inr (\<lparr>added = {''database''}, changed = {}, deleted = {}\<rparr>, rel')"
    by simp
  from malformed_snapshot [of corrupt_relation "''not json''" JSONDecodeError ?c example_event]
    s loads_not_json g
  have 2: "diff corrupt_relation = Inl JSONDecodeError \<and>
     DatabaseProvides_on_relation_changed ?c example_event = Inl JSONDecodeError \<and>
     KafkaProvides_on_relation_changed ?c example_event = Inl JSONDecodeError \<and>
     ZookeeperProvides_on_relation_changed ?c example_event = Inl JSONDecodeError"
    by blast
  from n 1 s loads_not_json 2 g show ?thesis
    by blast
qed

theorem malformed_snapshot_counterexample:
  "dict_get (local_app_data corrupt_relation) ''data'' = Some ''not json'' \<and>
   json_loads ''not json'' = Inl JSONDecodeError \<and>
   diff corrupt_relation = Inl JSONDecodeError \<and>
   DatabaseProvides_on_relation_changed \<lparr>is_leader = True, relations = [corrupt_relation]\<rparr>
     example_event = Inl JSONDecodeError"
proof -
  have s: "dict_get (local_app_data corrupt_relation) ''data'' = Some ''not json''"
    by (simp add: dict_get_def corrupt_relation_def)
  then have "json_loads (dict_get_default (local_app_data corrupt_relation) ''data'' ''{}'')
      = Inl JSONDecodeError"
    by (simp add: dict_get_default_Some loads_not_json)
  then have d: "diff corrupt_relation = Inl JSONDecodeError"
    by (rule diff_Inl)
  have "get_relation \<lparr>is_leader = True, relations = [corrupt_relation]\<rparr>
      (event_relation example_event) = Some corrupt_relation"
    by (simp add: get_relation_def example_event_def corrupt_relation_def)
  with d have "diff_event \<lparr>is_leader = True, relations = [corrupt_relation]\<rparr> example_event
      = Inl JSONDecodeError"
    by (simp add: diff_event_found)
  then have "DatabaseProvides_on_relation_changed \<lparr>is_leader = True, relations = [corrupt_relation]\<rparr>
     example_event = Inl JSONDecodeError"
    by (simp add: handlers_diff_error)
  with s d loads_not_json show ?thesis
    by simp
qed

text \<open>
  C3. A write through \<^verbatim>\<open>_update_relation_data\<close> by a unit that is not the leader returns
  normally and leaves the charm's state as it was. A write by the leader to an existing
  relation, with the fields \<open>F\<close>, gives every key of \<open>F\<close> its value in the local
  application's databag and leaves every other key of that databag with the value it had
  (a merge: \<open>++\<close> is the override of maps); the remote databag and the other relations
  do not change.
\<close>

theorem guarded_write:
  "(\<not> is_leader c \<longrightarrow> update_relation_data c rid F = Inr c) \<and>
   (is_leader c \<and> get_relation c rid = Some r \<and> wf_dict F \<longrightarrow>
      (\<exists>c' r'. update_relation_data c rid F = Inr c' \<and>
         get_relation c' rid = Some r' \<and>
         dict_get (local_app_data r') = dict_get (local_app_data r) ++ dict_get F \<and>
         dict_keys (local_app_data r') = dict_keys (local_app_data r) \<union> dict_keys F \<and>
         remote_app_data r' = remote_app_data r \<and> rel_id r' = rel_id r \<and> rel_app r' = rel_app r \<and>
         is_leader c' = is_leader c \<and>
         (\<forall>rid'. rid' \<noteq> rid \<longrightarrow> get_relation c' rid' = get_relation c rid')))"
proof (intro conjI impI)
  assume "\<not> is_leader c"
  then show "update_relation_data c rid F = Inr c"
    by (simp add: update_relation_data_def)
next
  assume a: "is_leader c \<and> get_relation c rid = Some r \<and> wf_dict F"
  let ?f = "\<lambda>r. r\<lparr>local_app_data := dict_update (local_app_data r) F\<rparr>"
  let ?c = "c\<lparr>relations := modify_relation rid ?f (relations c)\<rparr>"
  from a have u: "update_relation_data c rid F = Inr ?c"
    by (simp add: update_relation_data_def)
  from a have g: "get_relation ?c rid = Some (?f r)"
    using get_relation_update_same [of c rid r "\<lambda>b. dict_update b F"] by simp
  have o: "\<forall>rid'. rid' \<noteq> rid \<longrightarrow> get_relation ?c rid' = get_relation c rid'"
    by (simp add: get_relation_def find_modify_relation_other)
  from a have s: "dict_get (local_app_data (?f r)) = dict_get (local_app_data r) ++ dict_get F"
    by (simp add: dict_get_dict_update)
  have k: "dict_keys (local_app_data (?f r)) = dict_keys (local_app_data r) \<union> dict_keys F"
    by (simp add: dict_keys_dict_update)
  show "\<exists>c' r'. update_relation_data c rid F = Inr c' \<and>
         get_relation c' rid = Some r' \<and>
         dict_get (local_app_data r') = dict_get (local_app_data r) ++ dict_get F \<and>
         dict_keys (local_app_data r') = dict_keys (local_app_data r) \<union> dict_keys F \<and>
         remote_app_data r' = remote_app_data r \<and> rel_id r' = rel_id r \<and> rel_app r' = rel_app r \<and>
         is_leader c' = is_leader c \<and>
         (\<forall>rid'. rid' \<noteq> rid \<longrightarrow> get_relation c' rid' = get_relation c rid')"
    using u g o s k by (intro exI [of _ ?c] exI [of _ "?f r"]) simp
qed

theorem guarded_write_witness:
  "update_relation_data (example_charm False) 1 [(''username'', ''u1''), (''password'', ''p1'')]
     = Inr (example_charm False) \<and>
   is_leader (example_charm True) \<and>
   get_relation (example_charm True) 1 = Some example_relation \<and>
   wf_dict [(''username'', ''u1''), (''password'', ''p1'')] \<and>
   (\<exists>c' r'.
      update_relation_data (example_charm True) 1 [(''username'', ''u1''), (''password'', ''p1'')]
        = Inr c' \<and>
      get_relation c' 1 = Some r' \<and>
      dict_get (local_app_data r') =
        dict_get (local_app_data example_relation) ++
        dict_get [(''username'', ''u1''), (''password'', ''p1'')] \<and>
      dict_keys (local_app_data r') =
        {''data'', ''endpoints'', ''username'', ''password''} \<and>
      remote_app_data r' = remote_app_data example_relation)"
proof -
  have l: "is_leader (example_charm True)"
    by (simp add: example_charm_def)
  have n: "\<not> is_leader (example_charm False)"
    by (simp add: example_charm_def)
  have g: "get_relation (example_charm True) 1 = Some example_relation"
    by (simp add: example_charm_def get_relation_def example_relation_def)
  have w: "wf_dict [(''username'', ''u1''), (''password'', ''p1'')]"
    by (simp add: wf_dict_def)
  have k: "dict_keys (local_app_data example_relation) \<union>
             dict_keys [(''username'', ''u1''), (''password'', ''p1'')] =
           {''data'', ''endpoints'', ''username'', ''password''}"
    by (auto simp: example_relation_def dict_keys_def)
  from guarded_write [of "example_charm False" 1 "[(''username'', ''u1''), (''password'', ''p1'')]"] n
  have a: "update_relation_data (example_charm False) 1 [(''username'', ''u1''), (''password'', ''p1'')]
     = Inr (example_charm False)"
    by blast
  from guarded_write [of "example_charm True" 1 "[(''username'', ''u1''), (''password'', ''p1'')]"
      example_relation] l g w
  obtain c' r' where
    "update_relation_data (example_charm True) 1 [(''username'', ''u1''), (''password'', ''p1'')]
        = Inr c'"
    "get_relation c' 1 = Some r'"
    "dict_get (local_app_data r') =
        dict_get (local_app_data example_relation) ++
        dict_get [(''username'', ''u1''), (''password'', ''p1'')]"
    "dict_keys (local_app_data r') = dict_keys (local_app_data example_relation) \<union>
             dict_keys [(''username'', ''u1''), (''password'', ''p1'')]"
    "remote_app_data r' = remote_app_data example_relation"
    by blast
  with a l g w k show ?thesis
    by (intro conjI exI [of _ c'] exI [of _ r']) simp_all
qed

text \<open>
  C4. When the value stored under \<^verbatim>\<open>"data"\<close> decodes to the dictionary \<open>old\<close>, the diff
  returns the delta of the specification for \<open>old\<close> and the peer view (the remote databag
  without the key \<^verbatim>\<open>"data"\<close>): added are the keys of the view that \<open>old\<close> has not,
  deleted the keys of \<open>old\<close> that the view has not, changed the keys of both whose values
  differ.
\<close>

theorem diff_classification:
  assumes "json_loads (dict_get_default (local_app_data rel) ''data'' ''{}'') = Inr (JObject old)"
  shows "\<exists>rel'. diff rel = Inr (spec_delta (dict_get old) (peer_view rel), rel')"
proof -
  have "Set.filter
          (\<lambda>key. dict_get old key \<noteq> map_option JString (dict_get (new_data_of rel) key))
          (dict_keys old \<inter> dict_keys (new_data_of rel)) =
        {k \<in> dom (dict_get old) \<inter> dom (peer_view rel).
           dict_get old k \<noteq> map_option JString (peer_view rel k)}"
    by (auto simp: dict_keys_dom dict_get_new_data_of)
  then show ?thesis
    by (simp add: diff_loaded [OF assms] spec_delta_def dict_keys_dom dict_get_new_data_of)
qed

theorem diff_classification_witness:
  "json_loads (dict_get_default (local_app_data edited_relation) ''data'' ''{}'') =
     Inr (JObject (decoded requested_bag)) \<and>
   (\<exists>rel'. diff edited_relation =
      Inr (\<lparr>added = {''version''}, changed = {''database''}, deleted = {''extra-user-roles''}\<rparr>,
           rel'))"
proof -
  have "wf_dict requested_bag"
    by (simp add: wf_dict_def requested_bag_def)
  then have l: "json_loads (dict_get_default (local_app_data edited_relation) ''data'' ''{}'') =
     Inr (JObject (decoded requested_bag))"
    by (simp add: edited_relation_def dict_get_default_def json_roundtrip)
  from diff_classification [OF l] l show ?thesis
    by (simp add: delta_edited)
qed

text \<open>
  C5. When a diff of a relation has returned, a second diff right after it, with the remote
  databag as it was, returns the empty delta and leaves the relation as the first diff
  left it. On a relation with no snapshot yet the first diff does return, and so the
  second one returns the empty delta.
\<close>

theorem diff_idempotent:
  assumes wf: "wf_dict (remote_app_data rel)"
  shows "(diff rel = Inr (d, rel') \<longrightarrow>
        diff rel' = Inr (\<lparr>added = {}, changed = {}, deleted = {}\<rparr>, rel')) \<and>
     (dict_get (local_app_data rel) ''data'' = None \<longrightarrow>
        (\<exists>d1 rel1. diff rel = Inr (d1, rel1) \<and>
           diff rel1 = Inr (\<lparr>added = {}, changed = {}, deleted = {}\<rparr>, rel1)))"
proof -
  have again: "diff rel' = Inr (\<lparr>added = {}, changed = {}, deleted = {}\<rparr>, rel')"
    if first: "diff rel = Inr (d, rel')" for d rel'
  proof -
    from first obtain old where
      old: "json_loads (dict_get_default (local_app_data rel) ''data'' ''{}'') = Inr (JObject old)"
      using diff_InrD by blast
    let ?new = "new_data_of rel"
    from first have rel': "rel' = rel\<lparr>local_app_data := dict_set ''data'' (json_dumps ?new) (local_app_data rel)\<rparr>"
      by (simp add: diff_loaded [OF old])
    then have same: "new_data_of rel' = ?new"
      by (simp add: new_data_of_def)
    have "dict_get (local_app_data rel') ''data'' = Some (json_dumps ?new)"
      by (simp add: rel' dict_get_dict_set)
    then have "dict_get_default (local_app_data rel') ''data'' ''{}'' = json_dumps ?new"
      by (simp add: dict_get_default_def dict_get_def)
    moreover from wf have "json_loads (json_dumps ?new) = Inr (JObject (decoded ?new))"
      by (intro json_roundtrip wf_dict_new_data_of)
    ultimately have
      "json_loads (dict_get_default (local_app_data rel') ''data'' ''{}'') = Inr (JObject (decoded ?new))"
      by simp
    from diff_loaded [OF this] show ?thesis
      by (simp add: same dict_keys_decoded dict_get_decoded) (simp add: rel' dict_set_def)
  qed
  have fresh: "\<exists>d1 rel1. diff rel = Inr (d1, rel1) \<and>
           diff rel1 = Inr (\<lparr>added = {}, changed = {}, deleted = {}\<rparr>, rel1)"
    if "dict_get (local_app_data rel) ''data'' = None"
  proof -
    from that have "json_loads (dict_get_default (local_app_data rel) ''data'' ''{}'') = Inr (JObject [])"
      by (simp add: dict_get_default_None loads_empty_object)
    from diff_loaded [OF this] obtain d1 rel1 where "diff rel = Inr (d1, rel1)"
      by simp
    with again show ?thesis
      by blast
  qed
  from again fresh show ?thesis
    by blast
qed

theorem diff_idempotent_witness:
  "wf_dict (remote_app_data example_relation) \<and>
   diff example_relation =
     Inr (\<lparr>added = {''database''}, changed = {}, deleted = {}\<rparr>, settled_relation) \<and>
   diff settled_relation =
     Inr (\<lparr>added = {}, changed = {}, deleted = {}\<rparr>, settled_relation) \<and>
   dict_get (local_app_data topic_relation) ''data'' = None \<and>
   wf_dict (remote_app_data topic_relation) \<and>
   (\<exists>d1 rel1. diff topic_relation = Inr (d1, rel1) \<and>
      diff rel1 = Inr (\<lparr>added = {}, changed = {}, deleted = {}\<rparr>, rel1))"
proof -
  have w: "wf_dict (remote_app_data example_relation)"
    by (simp add: example_relation_def wf_dict_def)
  have v: "wf_dict (remote_app_data topic_relation)"
    by (simp add: topic_relation_def wf_dict_def)
  have n: "dict_get (local_app_data topic_relation) ''data'' = None"
    by (simp add: topic_relation_def dict_get_def)
  from diff_idempotent [OF w, of "\<lparr>added = {''database''}, changed = {}, deleted = {}\<rparr>"
      settled_relation] diff_example_relation
  have 1: "diff settled_relation =
      Inr (\<lparr>added = {}, changed = {}, deleted = {}\<rparr>, settled_relation)"
    by blast
  from diff_idempotent [OF v] n
  have 2: "\<exists>d1 rel1. diff topic_relation = Inr (d1, rel1) \<and>
      diff rel1 = Inr (\<lparr>added = {}, changed = {}, deleted = {}\<rparr>, rel1)"
    by blast
  from w diff_example_relation 1 n v 2 show ?thesis
    by blast
qed

text \<open>
  C6. After a diff has returned, whatever its three sets are, the value under \<^verbatim>\<open>"data"\<close>
  in the local databag is the JSON text of the remote databag without the key
  \<^verbatim>\<open>"data"\<close>, and the remote databag is as it was; the same holds for the relation in
  the charm after a handler's diff. No setter changes the value under \<^verbatim>\<open>"data"\<close> in any
  relation.
\<close>

theorem snapshot_saved:
  "(diff rel = Inr (d, rel') \<longrightarrow>
      snapshot rel' = Some (json_dumps (new_data_of rel')) \<and>
      remote_app_data rel' = remote_app_data rel) \<and>
   (get_relation c (event_relation ev) = Some rel \<and> diff_event c ev = Inr (d, c') \<longrightarrow>
      (\<exists>rel'. get_relation c' (event_relation ev) = Some rel' \<and>
         snapshot rel' = Some (json_dumps (new_data_of rel')) \<and>
         remote_app_data rel' = remote_app_data rel)) \<and>
   (call_setter c rid s = Inr c' \<longrightarrow>
      (\<forall>rid'. map_option snapshot (get_relation c' rid') = map_option snapshot (get_relation c rid')))"
proof (intro conjI impI allI)
  assume a: "diff rel = Inr (d, rel')"
  then show "snapshot rel' = Some (json_dumps (new_data_of rel'))"
    by (rule snapshot_diff)
  from a show "remote_app_data rel' = remote_app_data rel"
    by (rule snapshot_diff)
next
  assume "get_relation c (event_relation ev) = Some rel \<and> diff_event c ev = Inr (d, c')"
  then obtain rel' where "diff rel = Inr (d, rel')" "get_relation c' (event_relation ev) = Some rel'"
    using diff_event_returned by blast
  then show "\<exists>rel'. get_relation c' (event_relation ev) = Some rel' \<and>
         snapshot rel' = Some (json_dumps (new_data_of rel')) \<and>
         remote_app_data rel' = remote_app_data rel"
    using snapshot_diff by blast
next
  fix rid'
  assume "call_setter c rid s = Inr c'"
  then show "map_option snapshot (get_relation c' rid') = map_option snapshot (get_relation c rid')"
    by (rule call_setter_snapshot)
qed
theorem snapshot_saved_witness:
  "diff settled_relation = Inr (\<lparr>added = {}, changed = {}, deleted = {}\<rparr>, settled_relation) \<and>
   snapshot settled_relation = Some (json_dumps (new_data_of settled_relation)) \<and>
   get_relation settled_charm (event_relation example_event) = Some settled_relation \<and>
   diff_event settled_charm example_event =
     Inr (\<lparr>added = {}, changed = {}, deleted = {}\<rparr>, settled_charm) \<and>
   call_setter settled_charm 1 (SetCredentials ''u1'' ''p1'') =
     Inr (settled_charm\<lparr>relations :=
       [settled_relation\<lparr>local_app_data :=
          local_app_data settled_relation @ [(''username'', ''u1''), (''password'', ''p1'')]\<rparr>]\<rparr>) \<and>
   map_option snapshot
     (get_relation (settled_charm\<lparr>relations :=
       [settled_relation\<lparr>local_app_data :=
          local_app_data settled_relation @ [(''username'', ''u1''), (''password'', ''p1'')]\<rparr>]\<rparr>) 1)
     = map_option snapshot (get_relation settled_charm 1)"
proof -
  let ?c' = "settled_charm\<lparr>relations :=
       [settled_relation\<lparr>local_app_data :=
          local_app_data settled_relation @ [(''username'', ''u1''), (''password'', ''p1'')]\<rparr>]\<rparr>"
  have g: "get_relation settled_charm (event_relation example_event) = Some settled_relation"
    by (simp add: get_relation_settled example_event_def)
  have s: "call_setter settled_charm 1 (SetCredentials ''u1'' ''p1'') = Inr ?c'"
    by (simp add: set_credentials_def update_relation_data_def get_relation_settled)
       (simp add: settled_charm_def settled_relation_def example_relation_def dict_set_def)
  note t = snapshot_saved [of settled_relation "\<lparr>added = {}, changed = {}, deleted = {}\<rparr>"
      settled_relation settled_charm example_event ?c' 1 "SetCredentials ''u1'' ''p1''"]
  from t diff_settled_relation have 1:
    "snapshot settled_relation = Some (json_dumps (new_data_of settled_relation))"
    by blast
  from t s have 2: "map_option snapshot (get_relation ?c' 1) = map_option snapshot (get_relation settled_charm 1)"
    by blast
  from diff_settled_relation 1 g diff_event_settled s 2 show ?thesis
    by blast
qed

text \<open>
  C7. On the leader, the database handler emits one event when \<^verbatim>\<open>"database"\<close> is in the
  added set of its diff and none otherwise, so none for a key that is changed or deleted;
  the Kafka and Zookeeper handlers emit none when their key is not added. When a
  notification has raised the event and the remote application then gives
  \<^verbatim>\<open>"database"\<close> another value, the next notification classifies the key as changed
  and raises no event.
\<close>

theorem trigger_once:
  assumes leader: "is_leader c"
  shows "(diff_event c ev = Inr (d, c') \<longrightarrow>
        DatabaseProvides_on_relation_changed c ev =
          Inr (c', if ''database'' \<in> added d
                   then [\<lparr>kind = DatabaseRequestedEvent, relation = event_relation ev,
                          app = event_app ev, unit = event_unit ev\<rparr>]
                   else []) \<and>
        (''database'' \<in> changed d \<or> ''database'' \<in> deleted d \<longrightarrow>
           DatabaseProvides_on_relation_changed c ev = Inr (c', [])) \<and>
        (''topic'' \<notin> added d \<longrightarrow> KafkaProvides_on_relation_changed c ev = Inr (c', [])) \<and>
        (''chroot'' \<notin> added d \<longrightarrow> ZookeeperProvides_on_relation_changed c ev = Inr (c', []))) \<and>
     (get_relation c (event_relation ev) = Some rel \<and> wf_dict (remote_app_data rel) \<and>
      DatabaseProvides_on_relation_changed c ev = Inr (c1, [e1]) \<and>
      dict_get (remote_app_data rel) ''database'' = Some x \<and> y \<noteq> x \<and>
      event_relation ev2 = event_relation ev \<longrightarrow>
        (\<exists>d2 c2.
           diff_event (remote_write c1 (event_relation ev) ''database'' y) ev2 = Inr (d2, c2) \<and>
           ''database'' \<in> changed d2 \<and> ''database'' \<notin> added d2 \<and>
           DatabaseProvides_on_relation_changed
             (remote_write c1 (event_relation ev) ''database'' y) ev2 = Inr (c2, [])))"
proof (intro conjI impI)
  assume a: "diff_event c ev = Inr (d, c')"
  from database_handler [OF leader a]
  show "DatabaseProvides_on_relation_changed c ev =
          Inr (c', if ''database'' \<in> added d
                   then [\<lparr>kind = DatabaseRequestedEvent, relation = event_relation ev,
                          app = event_app ev, unit = event_unit ev\<rparr>]
                   else [])" .
  {
    assume "''database'' \<in> changed d \<or> ''database'' \<in> deleted d"
    with diff_event_disjoint [OF a] have "''database'' \<notin> added d"
      by auto
    with database_handler [OF leader a]
    show "DatabaseProvides_on_relation_changed c ev = Inr (c', [])"
      by simp
  }
  {
    assume "''topic'' \<notin> added d"
    with kafka_handler [OF leader a]
    show "KafkaProvides_on_relation_changed c ev = Inr (c', [])"
      by simp
  }
  {
    assume "''chroot'' \<notin> added d"
    with zookeeper_handler [OF leader a]
    show "ZookeeperProvides_on_relation_changed c ev = Inr (c', [])"
      by simp
  }
next
  assume b: "get_relation c (event_relation ev) = Some rel \<and> wf_dict (remote_app_data rel) \<and>
      DatabaseProvides_on_relation_changed c ev = Inr (c1, [e1]) \<and>
      dict_get (remote_app_data rel) ''database'' = Some x \<and> y \<noteq> x \<and>
      event_relation ev2 = event_relation ev"
  let ?rid = "event_relation ev"
  let ?c = "remote_write c1 ?rid ''database'' y"
  from b leader obtain d1 where d1: "diff_event c ev = Inr (d1, c1)"
    using database_handler_returned by blast
  with b obtain rel1 where rel1: "diff rel = Inr (d1, rel1)"
    and g1: "get_relation c1 ?rid = Some rel1" and l1: "is_leader c1 = is_leader c"
    using diff_event_returned by blast
  from b rel1 obtain d2 rel2 where
    d2: "diff (rel1\<lparr>remote_app_data := dict_set ''database'' y (remote_app_data rel1)\<rparr>) = Inr (d2, rel2)"
    and ch: "''database'' \<in> changed d2" and na: "''database'' \<notin> added d2"
    using changed_after_edit [of rel d1 rel1 "''database''" x y] by auto
  have "get_relation ?c ?rid = Some (rel1\<lparr>remote_app_data := dict_set ''database'' y (remote_app_data rel1)\<rparr>)"
    using g1 by (rule get_relation_remote_write)
  with b have g: "get_relation ?c (event_relation ev2) =
      Some (rel1\<lparr>remote_app_data := dict_set ''database'' y (remote_app_data rel1)\<rparr>)"
    by simp
  obtain c2 where e: "diff_event ?c ev2 = Inr (d2, c2)"
    by (simp add: diff_event_found [OF g] d2)
  from leader l1 have "is_leader ?c"
    by (simp add: remote_write_leader)
  from database_handler [OF this e] na
  have "DatabaseProvides_on_relation_changed ?c ev2 = Inr (c2, [])"
    by simp
  with e ch na show "\<exists>d2 c2.
           diff_event ?c ev2 = Inr (d2, c2) \<and>
           ''database'' \<in> changed d2 \<and> ''database'' \<notin> added d2 \<and>
           DatabaseProvides_on_relation_changed ?c ev2 = Inr (c2, [])"
    by blast
qed
theorem trigger_once_witness:
  "is_leader (example_charm True) \<and>
   get_relation (example_charm True) (event_relation example_event) = Some example_relation \<and>
   wf_dict (remote_app_data example_relation) \<and>
   diff_event (example_charm True) example_event =
     Inr (\<lparr>added = {''database''}, changed = {}, deleted = {}\<rparr>, settled_charm) \<and>
   DatabaseProvides_on_relation_changed (example_charm True) example_event =
     Inr (settled_charm, [requested_event]) \<and>
   dict_get (remote_app_data example_relation) ''database'' = Some ''app_db'' \<and>
   ''other_db'' \<noteq> ''app_db'' \<and>
   (\<exists>d2 c2.
      diff_event (remote_write settled_charm 1 ''database'' ''other_db'') example_event
        = Inr (d2, c2) \<and>
      ''database'' \<in> changed d2 \<and> ''database'' \<notin> added d2 \<and>
      DatabaseProvides_on_relation_changed
        (remote_write settled_charm 1 ''database'' ''other_db'') example_event = Inr (c2, []))"
proof -
  have l: "is_leader (example_charm True)"
    by (simp add: example_charm_def)
  have g: "get_relation (example_charm True) (event_relation example_event) = Some example_relation"
    by (simp add: example_charm_def get_relation_def example_event_def example_relation_def)
  have w: "wf_dict (remote_app_data example_relation)"
    by (simp add: wf_dict_def example_relation_def)
  have x: "dict_get (remote_app_data example_relation) ''database'' = Some ''app_db''"
    by (simp add: dict_get_def example_relation_def)
  have r: "event_relation example_event = 1"
    by (simp add: example_event_def)
  note t = trigger_once [OF l, of example_event "\<lparr>added = {''database''}, changed = {}, deleted = {}\<rparr>"
      settled_charm example_relation settled_charm requested_event "''app_db''" "''other_db''"
      example_event]
  from t diff_event_example have h: "DatabaseProvides_on_relation_changed (example_charm True) example_event =
     Inr (settled_charm, [requested_event])"
    by (simp add: requested_event_def example_event_def)
  from t g w h x r have "\<exists>d2 c2.
      diff_event (remote_write settled_charm 1 ''database'' ''other_db'') example_event
        = Inr (d2, c2) \<and>
      ''database'' \<in> changed d2 \<and> ''database'' \<notin> added d2 \<and>
      DatabaseProvides_on_relation_changed
        (remote_write settled_charm 1 ''database'' ''other_db'') example_event = Inr (c2, [])"
    by simp
  with l g w diff_event_example h x show ?thesis
    by simp
qed

text \<open>
  C8, as amended. The three sets of a diff are pairwise disjoint; added, deleted and the
  keys that the old view and the new view share make up all keys of the two views; and
  changed is a part of the shared keys. (The claim has changed in the place of deleted:
  then a key that was only deleted is not accounted for, as the counterexample shows on
  the relation whose roles were deleted.)
\<close>

theorem diff_partition:
  assumes "json_loads (dict_get_default (local_app_data rel) ''data'' ''{}'') = Inr (JObject old)"
    and "diff rel = Inr (d, rel')"
  shows "added d \<inter> changed d = {} \<and> added d \<inter> deleted d = {} \<and> changed d \<inter> deleted d = {} \<and>
     added d \<union> deleted d \<union> (dict_keys old \<inter> dict_keys (new_data_of rel)) =
       dict_keys old \<union> dict_keys (new_data_of rel) \<and>
     changed d \<subseteq> dict_keys old \<inter> dict_keys (new_data_of rel)"
proof -
  from assms(2) have d: "d =
      \<lparr>added = dict_keys (new_data_of rel) - dict_keys old,
       changed = Set.filter
         (\<lambda>key. dict_get old key \<noteq> map_option JString (dict_get (new_data_of rel) key))
         (dict_keys old \<inter> dict_keys (new_data_of rel)),
       deleted = dict_keys old - dict_keys (new_data_of rel)\<rparr>"
    by (simp add: diff_loaded [OF assms(1)])
  show ?thesis
    unfolding d by auto
qed

theorem diff_partition_witness:
  "json_loads (dict_get_default (local_app_data roles_dropped_relation) ''data'' ''{}'') =
       Inr (JObject (decoded requested_bag)) \<and>
   diff roles_dropped_relation =
     Inr (\<lparr>added = {}, changed = {}, deleted = {''extra-user-roles''}\<rparr>,
          roles_dropped_relation\<lparr>local_app_data :=
            [(''data'', json_dumps [(''database'', ''app_db'')])]\<rparr>) \<and>
   {} \<union> {''extra-user-roles''} \<union>
     (dict_keys (decoded requested_bag) \<inter> dict_keys (new_data_of roles_dropped_relation)) =
     dict_keys (decoded requested_bag) \<union> dict_keys (new_data_of roles_dropped_relation)"
proof -
  have l: "json_loads (dict_get_default (local_app_data roles_dropped_relation) ''data'' ''{}'') =
      Inr (JObject (decoded requested_bag))"
    by (simp add: roles_dropped_relation_def dict_get_default_def loads_requested_bag)
  from diff_partition [OF l diff_roles_dropped] l diff_roles_dropped show ?thesis
    by simp
qed

theorem partition_counterexample:
  "diff roles_dropped_relation =
     Inr (\<lparr>added = {}, changed = {}, deleted = {''extra-user-roles''}\<rparr>,
          roles_dropped_relation\<lparr>local_app_data :=
            [(''data'', json_dumps [(''database'', ''app_db'')])]\<rparr>) \<and>
   dict_keys requested_bag = {''database'', ''extra-user-roles''} \<and>
   dict_keys (new_data_of roles_dropped_relation) = {''database''} \<and>
   ({} :: string set) \<union> {} \<union> ({''database'', ''extra-user-roles''} \<inter> {''database''}) \<noteq>
     {''database'', ''extra-user-roles''} \<union> {''database''}"
proof -
  have "''extra-user-roles'' \<notin> ({} :: string set) \<union> {} \<union> ({''database'', ''extra-user-roles''} \<inter> {''database''})"
    by simp
  moreover have "''extra-user-roles'' \<in> {''database'', ''extra-user-roles''} \<union> {''database''}"
    by simp
  ultimately have "({} :: string set) \<union> {} \<union> ({''database'', ''extra-user-roles''} \<inter> {''database''}) \<noteq>
     {''database'', ''extra-user-roles''} \<union> {''database''}"
    by metis
  then show ?thesis
    using diff_roles_dropped
    by (simp add: dict_keys_def requested_bag_def new_data_of_def roles_dropped_relation_def)
qed

text \<open>
  C9. A handler on a unit that is not the leader returns at once: the charm's state,
  with every databag and the snapshot in it, is the one it was given, and no event is
  emitted.
\<close>

theorem non_leader_returns:
  assumes "\<not> is_leader c"
  shows "DatabaseProvides_on_relation_changed c ev = Inr (c, []) \<and>
     KafkaProvides_on_relation_changed c ev = Inr (c, []) \<and>
     ZookeeperProvides_on_relation_changed c ev = Inr (c, [])"
  using assms
  by (simp add: DatabaseProvides_on_relation_changed_def KafkaProvides_on_relation_changed_def
        ZookeeperProvides_on_relation_changed_def)

theorem non_leader_returns_witness:
  "\<not> is_leader (example_charm False) \<and>
   DatabaseProvides_on_relation_changed (example_charm False) example_event
     = Inr (example_charm False, []) \<and>
   KafkaProvides_on_relation_changed (example_charm False) example_event
     = Inr (example_charm False, []) \<and>
   ZookeeperProvides_on_relation_changed (example_charm False) example_event
     = Inr (example_charm False, []) \<and>
   get_relation (example_charm False) 1 = Some example_relation \<and>
   dict_get (local_app_data example_relation) ''data'' = Some ''{}''"
proof -
  have n: "\<not> is_leader (example_charm False)"
    by (simp add: example_charm_def)
  have g: "get_relation (example_charm False) 1 = Some example_relation"
    by (simp add: example_charm_def get_relation_def example_relation_def)
  have s: "dict_get (local_app_data example_relation) ''data'' = Some ''{}''"
    by (simp add: example_relation_def dict_get_def)
  from non_leader_returns [OF n, of example_event] n g s show ?thesis
    by simp
qed

text \<open>
  C10. An accessor of a custom event looks the key up in the remote application's databag
  of the event's relation as the charm has it when the accessor is called: it returns the
  value there, \<^verbatim>\<open>None\<close> when the key is absent (no error), and the new value after the
  remote application has written one.
\<close>

theorem accessors_read_live:
  assumes "get_relation c (relation ev) = Some rel"
  shows "extra_user_roles c ev = Inr (dict_get (remote_app_data rel) ''extra-user-roles'') \<and>
     (kind ev = DatabaseRequestedEvent \<longrightarrow>
        database c ev = Inr (dict_get (remote_app_data rel) ''database'')) \<and>
     (kind ev = TopicCreatedEvent \<longrightarrow>
        topic c ev = Inr (dict_get (remote_app_data rel) ''topic'')) \<and>
     (kind ev = ZNodeCreatedEvent \<longrightarrow>
        chroot c ev = Inr (dict_get (remote_app_data rel) ''chroot'')) \<and>
     (''extra-user-roles'' \<notin> dict_keys (remote_app_data rel) \<longrightarrow>
        extra_user_roles c ev = Inr None) \<and>
     (kind ev = DatabaseRequestedEvent \<and> ''database'' \<notin> dict_keys (remote_app_data rel) \<longrightarrow>
        database c ev = Inr None) \<and>
     (kind ev = TopicCreatedEvent \<and> ''topic'' \<notin> dict_keys (remote_app_data rel) \<longrightarrow>
        topic c ev = Inr None) \<and>
     (kind ev = ZNodeCreatedEvent \<and> ''chroot'' \<notin> dict_keys (remote_app_data rel) \<longrightarrow>
        chroot c ev = Inr None) \<and>
     extra_user_roles (remote_write c (relation ev) ''extra-user-roles'' val) ev = Inr (Some val) \<and>
     (kind ev = DatabaseRequestedEvent \<longrightarrow>
        database (remote_write c (relation ev) ''database'' val) ev = Inr (Some val)) \<and>
     (kind ev = TopicCreatedEvent \<longrightarrow>
        topic (remote_write c (relation ev) ''topic'' val) ev = Inr (Some val)) \<and>
     (kind ev = ZNodeCreatedEvent \<longrightarrow>
        chroot (remote_write c (relation ev) ''chroot'' val) ev = Inr (Some val))"
  using relation_data_get_found [OF assms] relation_data_get_written [OF assms]
  by (simp add: extra_user_roles_def database_def topic_def chroot_def dict_get_None_iff)

theorem accessors_read_live_witness:
  "get_relation (example_charm True) (relation requested_event) = Some example_relation \<and>
   kind requested_event = DatabaseRequestedEvent \<and>
   ''extra-user-roles'' \<notin> dict_keys (remote_app_data example_relation) \<and>
   database (example_charm True) requested_event = Inr (Some ''app_db'') \<and>
   extra_user_roles (example_charm True) requested_event = Inr None \<and>
   database (remote_write (example_charm True) 1 ''database'' ''other_db'') requested_event
     = Inr (Some ''other_db'') \<and>
   extra_user_roles (remote_write (example_charm True) 1 ''extra-user-roles'' ''CREATEDB'')
     requested_event = Inr (Some ''CREATEDB'')"
proof -
  have g: "get_relation (example_charm True) (relation requested_event) = Some example_relation"
    by (simp add: example_charm_def get_relation_def example_relation_def requested_event_def)
  have k: "kind requested_event = DatabaseRequestedEvent" and r: "relation requested_event = 1"
    by (simp_all add: requested_event_def)
  have n: "''extra-user-roles'' \<notin> dict_keys (remote_app_data example_relation)"
    by (simp add: dict_keys_def example_relation_def)
  have d: "dict_get (remote_app_data example_relation) ''database'' = Some ''app_db''"
    by (simp add: dict_get_def example_relation_def)
  from accessors_read_live [OF g, of "''other_db''"] accessors_read_live [OF g, of "''CREATEDB''"]
    g k n d r
  show ?thesis
    by simp
qed

end
